theory Spec2Isabelle
  imports Complex_Main "HOL-Library.Word"
begin

section \<open>ISSReaction (src/include/Reaction.hh, src/src/Reaction.cc)\<close>

subsection \<open>Array-recoil coincidence windows\<close>

text \<open>
  The C++ type \<open>unsigned char\<close> is an 8-bit word.  A \<open>double[2]\<close> member is a
  block of exactly two values; reading it at an index of 2 or more is an out-of-bounds
  read, which the model makes visible as \<open>None\<close>.  The limits are integers of the
  reaction file, which a \<open>double\<close> holds exactly; they are reals here.
\<close>

type_synonym uchar = "8 word"

datatype 'a array2 = Array2 'a 'a

fun array2_read :: "'a array2 \<Rightarrow> nat \<Rightarrow> 'a option" where
  "array2_read (Array2 a b) i = (if i = 0 then Some a else if i = 1 then Some b else None)"

text \<open>
  \<open>TEnv::GetValue(name, int default)\<close> of ROOT: the configured integer, or the
  default when the key is absent.  The environment is the table of the keys the
  reaction file sets.
\<close>

type_synonym TEnv = "string \<Rightarrow> int option"

definition GetValue :: "TEnv \<Rightarrow> string \<Rightarrow> int \<Rightarrow> int" where
  "GetValue config name dflt = (case config name of None \<Rightarrow> dflt | Some v \<Rightarrow> v)"

record coincidence_windows =
  array_recoil_prompt :: "real array2"
  array_recoil_random :: "real array2"

text \<open>Reaction.cc lines 394-398 of \<open>ISSReaction::ReadReaction\<close>.\<close>

definition ReadReaction_time_windows :: "TEnv \<Rightarrow> coincidence_windows" where
  "ReadReaction_time_windows config =
     \<lparr> array_recoil_prompt =
         Array2 (real_of_int (GetValue config ''ArrayRecoil_PromptTime.Min'' (- 300)))
                (real_of_int (GetValue config ''ArrayRecoil_PromptTime.Max'' 300)),
       array_recoil_random =
         Array2 (real_of_int (GetValue config ''ArrayRecoil_RandomTime.Min'' 600))
                (real_of_int (GetValue config ''ArrayRecoil_RandomTime.Max'' 1200)) \<rparr>"

text \<open>Reaction.hh lines 232-242.\<close>

definition GetArrayRecoilPromptTime :: "coincidence_windows \<Rightarrow> uchar \<Rightarrow> real option" where
  "GetArrayRecoilPromptTime r i =
     (if i < 2 then array2_read (array_recoil_prompt r) (unat i) else Some 0)"

definition GetArrayRecoilRandomTime :: "coincidence_windows \<Rightarrow> uchar \<Rightarrow> real option" where
  "GetArrayRecoilRandomTime r i =
     (if i < 2 then array2_read (array_recoil_random r) (unat i) else Some 0)"

subsection \<open>Double-precision arithmetic\<close>

text \<open>
  \<open>GetEnergyLoss\<close> computes in the C++ type \<open>double\<close>: IEEE 754 binary64, every
  operation rounded to nearest with ties to even (the default rounding mode, which
  Reaction.cc does not change) and rounded on its own.  A finite double is its sign
  bit (\<open>True\<close> for negative) and its magnitude, a rational number; the two zeros differ
  in the sign bit only.
\<close>

datatype double = Finite bool rat | Infinity bool | NaN

definition pow2 :: "int \<Rightarrow> rat" where
  "pow2 e = (if 0 \<le> e then 2 ^ nat e else 1 / 2 ^ nat (- e))"

text \<open>
  The binary exponent of a magnitude below \<open>2 ^ 1024\<close>: the number of halvings that
  bring it below 2, or of doublings that bring it to 1, the latter cut off at 1022
  (magnitudes below \<open>2 ^ - 1022\<close> are subnormal and share the exponent - 1022).
\<close>

fun exponent_up :: "nat \<Rightarrow> rat \<Rightarrow> int" where
  "exponent_up n a = (if n = 0 \<or> a < 2 then 0 else exponent_up (n - 1) (a / 2) + 1)"

fun exponent_down :: "nat \<Rightarrow> rat \<Rightarrow> int" where
  "exponent_down n a = (if n = 0 \<or> 1 \<le> a then 0 else exponent_down (n - 1) (a * 2) - 1)"

declare exponent_up.simps [simp del] exponent_down.simps [simp del]

definition exponent_of :: "rat \<Rightarrow> int" where
  "exponent_of a = (if 1 \<le> a then exponent_up 1023 a else exponent_down 1022 a)"

definition round_half_even :: "rat \<Rightarrow> int" where
  "round_half_even m =
     (let f = \<lfloor>m\<rfloor>; d = m - of_int f
      in if d < 1 / 2 then f else if 1 / 2 < d then f + 1 else if even f then f else f + 1)"

text \<open>
  Rounding of an exact magnitude to 53 significant bits: the unit in the last place is
  \<open>2 ^ (e - 52)\<close> for the exponent \<open>e\<close> of the magnitude; a result of \<open>2 ^ 1024\<close> or
  more overflows (\<open>None\<close>).
\<close>

definition round_magnitude :: "rat \<Rightarrow> rat option" where
  "round_magnitude a =
     (if a = 0 then Some 0
      else if pow2 1024 \<le> a then None
      else let u = pow2 (exponent_of a - 52);
               r = of_int (round_half_even (a / u)) * u
           in if pow2 1024 \<le> r then None else Some r)"

definition rounded :: "bool \<Rightarrow> rat \<Rightarrow> double" where
  "rounded s a = (case round_magnitude a of None \<Rightarrow> Infinity s | Some r \<Rightarrow> Finite s r)"

definition value_of :: "bool \<Rightarrow> rat \<Rightarrow> rat" where
  "value_of s a = (if s then - a else a)"

text \<open>The operations \<open>-\<close>, \<open>*\<close>, \<open>/\<close> and \<open><\<close> on doubles.\<close>

fun dsub :: "double \<Rightarrow> double \<Rightarrow> double" where
  "dsub (Finite s a) (Finite t b) =
     (let r = value_of s a - value_of t b
      in if r = 0 then Finite (s \<and> \<not> t) 0 else rounded (r < 0) \<bar>r\<bar>)"
| "dsub (Finite s a) (Infinity t) = Infinity (\<not> t)"
| "dsub (Infinity s) (Finite t b) = Infinity s"
| "dsub (Infinity s) (Infinity t) = (if s = t then NaN else Infinity s)"
| "dsub NaN y = NaN"
| "dsub x NaN = NaN"

fun dmul :: "double \<Rightarrow> double \<Rightarrow> double" where
  "dmul (Finite s a) (Finite t b) = rounded (s \<noteq> t) (a * b)"
| "dmul (Finite s a) (Infinity t) = (if a = 0 then NaN else Infinity (s \<noteq> t))"
| "dmul (Infinity s) (Finite t b) = (if b = 0 then NaN else Infinity (s \<noteq> t))"
| "dmul (Infinity s) (Infinity t) = Infinity (s \<noteq> t)"
| "dmul NaN y = NaN"
| "dmul x NaN = NaN"

fun ddiv :: "double \<Rightarrow> double \<Rightarrow> double" where
  "ddiv (Finite s a) (Finite t b) =
     (if b = 0 then (if a = 0 then NaN else Infinity (s \<noteq> t)) else rounded (s \<noteq> t) (a / b))"
| "ddiv (Finite s a) (Infinity t) = Finite (s \<noteq> t) 0"
| "ddiv (Infinity s) (Finite t b) = Infinity (s \<noteq> t)"
| "ddiv (Infinity s) (Infinity t) = NaN"
| "ddiv NaN y = NaN"
| "ddiv x NaN = NaN"

fun dless :: "double \<Rightarrow> double \<Rightarrow> bool" where
  "dless (Finite s a) (Finite t b) = (value_of s a < value_of t b)"
| "dless (Finite s a) (Infinity t) = (\<not> t)"
| "dless (Infinity s) (Finite t b) = s"
| "dless (Infinity s) (Infinity t) = (s \<and> \<not> t)"
| "dless NaN y = False"
| "dless x NaN = False"

subsection \<open>Energy loss\<close>

text \<open>
  \<open>ISSReaction::GetEnergyLoss\<close>, Reaction.cc lines 490-505.  The stopping-power graph
  enters only through \<open>g->Eval(E)\<close>, a parameter \<open>g\<close> here.  The loop counter runs
  from 0 to \<open>Nmeshpoints\<close>; the model counts the iterations that remain.
\<close>

definition Nmeshpoints :: nat where
  "Nmeshpoints = 50"

fun GetEnergyLoss_loop :: "(double \<Rightarrow> double) \<Rightarrow> double \<Rightarrow> nat \<Rightarrow> double \<Rightarrow> double" where
  "GetEnergyLoss_loop g dx 0 E = E"
| "GetEnergyLoss_loop g dx (Suc n) E =
     (if dless E (Finite False 100) then E
      else GetEnergyLoss_loop g dx n (dsub E (dmul (g E) dx)))"

definition GetEnergyLoss :: "double \<Rightarrow> double \<Rightarrow> (double \<Rightarrow> double) \<Rightarrow> double" where
  "GetEnergyLoss Ei dst g =
     (let dx = ddiv dst (Finite False (of_nat Nmeshpoints));
          E = GetEnergyLoss_loop g dx Nmeshpoints Ei
      in dsub Ei E)"

text \<open>A stopping-power graph that evaluates to the same value at every energy.\<close>

definition constant_stopping :: "double \<Rightarrow> double \<Rightarrow> double" where
  "constant_stopping c E = c"

text \<open>
  Two functions that describe the loop from outside: the energy after \<open>k\<close>
  unconditional integration steps, and the number of steps the loop performs before
  it stops (at the break, or when the counter runs out).
\<close>

fun integrate_steps :: "(double \<Rightarrow> double) \<Rightarrow> double \<Rightarrow> nat \<Rightarrow> double \<Rightarrow> double" where
  "integrate_steps g dx 0 E = E"
| "integrate_steps g dx (Suc k) E = integrate_steps g dx k (dsub E (dmul (g E) dx))"

fun steps_taken :: "(double \<Rightarrow> double) \<Rightarrow> double \<Rightarrow> nat \<Rightarrow> double \<Rightarrow> nat" where
  "steps_taken g dx 0 E = 0"
| "steps_taken g dx (Suc n) E =
     (if dless E (Finite False 100) then 0
      else Suc (steps_taken g dx n (dsub E (dmul (g E) dx))))"

subsection \<open>Mass tables and reaction partners\<close>

text \<open>
  The constructor leaves in one of three ways: it returns, it calls \<open>exit(1)\<close>, or a
  standard-library call throws (\<open>std::string::substr\<close>, \<open>std::stoi\<close>,
  \<open>std::vector::at\<close>, \<open>std::map::at\<close>) and nothing in Reaction.cc catches it.
\<close>

datatype exn = out_of_range | invalid_argument

datatype failure = Exit int | Uncaught exn

definition bindE :: "failure + 'a \<Rightarrow> ('a \<Rightarrow> failure + 'b) \<Rightarrow> failure + 'b" where
  "bindE m f = (case m of Inl e \<Rightarrow> Inl e | Inr x \<Rightarrow> f x)"

text \<open>Reaction.hh lines 46-57.\<close>

definition gElName :: "string list" where
  "gElName =
    [''n'',''H'',''He'',''Li'',''Be'',''B'',''C'',''N'',''O'',''F'',''Ne'',''Na'',''Mg'',
     ''Al'',''Si'',''P'',''S'',''Cl'',''Ar'',''K'',''Ca'',''Sc'',''Ti'',''V'',''Cr'',
     ''Mn'',''Fe'',''Co'',''Ni'',''Cu'',''Zn'',''Ga'',''Ge'',''As'',''Se'',''Br'',''Kr'',
     ''Rb'',''Sr'',''Y'',''Zr'',''Nb'',''Mo'',''Tc'',''Ru'',''Rh'',''Pd'',''Ag'',''Cd'',
     ''In'',''Sn'',''Sb'',''Te'',''I'',''Xe'',''Cs'',''Ba'',''La'',''Ce'',''Pr'',''Nd'',
     ''Pm'',''Sm'',''Eu'',''Gd'',''Tb'',''Dy'',''Ho'',''Er'',''Tm'',''Yb'',''Lu'',''Hf'',
     ''Ta'',''W'',''Re'',''Os'',''Ir'',''Pt'',''Au'',''Hg'',''Tl'',''Pb'',''Bi'',''Po'',
     ''At'',''Rn'',''Fr'',''Ra'',''Ac'',''Th'',''Pa'',''U'',''Np'',''Pu'',''Am'',''Cm'',
     ''Bk'',''Cf'',''Es'',''Fm'',''Md'',''No'',''Lr'',''Rf'',''Db'',''Sg'',''Bh'',''Hs'',
     ''Mt'',''Ds'',''Rg'',''Cn'',''Nh'',''Fl'',''Ms'',''Lv'',''Ts'',''Og'',''Uue'',''Ubn'']"

text \<open>\<open>std::vector::at\<close> with a signed index converted to \<open>size_t\<close>.\<close>

definition vector_at :: "'a list \<Rightarrow> int \<Rightarrow> failure + 'a" where
  "vector_at xs i =
     (if 0 \<le> i \<and> nat i < length xs then Inr (xs ! nat i) else Inl (Uncaught out_of_range))"

text \<open>\<open>std::string::substr(pos, n)\<close>: throws when \<open>pos\<close> is past the end.\<close>

definition substr :: "string \<Rightarrow> nat \<Rightarrow> nat \<Rightarrow> failure + string" where
  "substr s pos n =
     (if length s < pos then Inl (Uncaught out_of_range) else Inr (take n (drop pos s)))"

text \<open>\<open>std::to_string(int)\<close>: decimal digits, with a minus sign below zero.\<close>

fun digits10 :: "nat \<Rightarrow> string" where
  "digits10 n =
     (if n < 10 then [''0123456789'' ! n]
      else digits10 (n div 10) @ [''0123456789'' ! (n mod 10)])"

declare digits10.simps [simp del]

definition to_string :: "int \<Rightarrow> string" where
  "to_string i = (if i < 0 then CHR ''-'' # digits10 (nat (- i)) else digits10 (nat i))"

text \<open>
  \<open>std::stoi\<close> in base 10: leading white space is skipped, a sign is optional, the
  longest run of digits is converted and the rest of the string ignored.  No digit:
  \<open>std::invalid_argument\<close>; a value outside \<open>int\<close>: \<open>std::out_of_range\<close>.
\<close>

definition isspace :: "char \<Rightarrow> bool" where
  "isspace c = (c \<in> set [CHR '' '', CHR 0x09, CHR 0x0A, CHR 0x0B, CHR 0x0C, CHR 0x0D])"

definition isdigit :: "char \<Rightarrow> bool" where
  "isdigit c = (c \<in> set ''0123456789'')"

definition digit_value :: "char \<Rightarrow> int" where
  "digit_value c = int (of_char c) - 48"

definition stoi :: "string \<Rightarrow> failure + int" where
  "stoi str =
     (let s1 = dropWhile isspace str;
          neg = (s1 \<noteq> [] \<and> hd s1 = CHR ''-'');
          s2 = (if s1 \<noteq> [] \<and> (hd s1 = CHR ''-'' \<or> hd s1 = CHR ''+'') then tl s1 else s1);
          ds = takeWhile isdigit s2;
          v = foldl (\<lambda>a c. 10 * a + digit_value c) 0 ds
      in if ds = [] then Inl (Uncaught invalid_argument)
         else if neg then (if v \<le> 2147483648 then Inr (- v) else Inl (Uncaught out_of_range))
         else (if v \<le> 2147483647 then Inr v else Inl (Uncaught out_of_range)))"

text \<open>Conversion of an \<open>int\<close> to \<open>short\<close> (16 bits, two's complement).\<close>

definition to_short :: "int \<Rightarrow> int" where
  "to_short v = sint (word_of_int v :: 16 word)"

text \<open>
  A binding energy is kept as the text \<open>TString::Atof\<close> is applied to; the value
  plays no part in the control flow.  \<open>std::map::insert\<close> keeps an existing entry.
\<close>

datatype binding_energy = NoData | Atof string

type_synonym mass_table = "string \<Rightarrow> binding_energy option"

definition map_insert :: "mass_table \<Rightarrow> string \<Rightarrow> binding_energy \<Rightarrow> mass_table" where
  "map_insert m k v = (case m k of None \<Rightarrow> m(k \<mapsto> v) | Some old \<Rightarrow> m)"

definition map_at :: "mass_table \<Rightarrow> string \<Rightarrow> failure + binding_energy" where
  "map_at m k = (case m k of None \<Rightarrow> Inl (Uncaught out_of_range) | Some v \<Rightarrow> Inr v)"

text \<open>\<open>ISSReaction::AddBindingEnergy\<close>, Reaction.cc lines 156-176.\<close>

definition AddBindingEnergy :: "mass_table \<Rightarrow> int \<Rightarrow> int \<Rightarrow> string \<Rightarrow> failure + mass_table" where
  "AddBindingEnergy ame_be Ai Zi ame_be_str =
     bindE (vector_at gElName Zi) (\<lambda>el.
       let isotope_key = to_string Ai @ el;
           str = (if CHR ''#'' \<in> set ame_be_str
                  then map (\<lambda>c. if c = CHR ''#'' then CHR ''.'' else c) ame_be_str
                  else ame_be_str)
       in if CHR ''*'' \<in> set str then Inr (map_insert ame_be isotope_key NoData)
          else Inr (map_insert ame_be isotope_key (Atof str)))"

text \<open>
  \<open>ISSReaction::ReadMassTables\<close>, Reaction.cc lines 181-245.  The file is \<open>None\<close>
  when it cannot be opened, and otherwise the lines that successive calls of
  \<open>std::getline\<close> deliver.
\<close>

fun find_startline :: "string \<Rightarrow> string list \<Rightarrow> failure + string list" where
  "find_startline line [] = (if take 4 line \<noteq> ''1N-Z'' then Inl (Exit 1) else Inr [])"
| "find_startline line (l # ls) =
     (if take 4 line \<noteq> ''1N-Z'' then find_startline l ls else Inr (l # ls))"

definition mass_line :: "mass_table \<Rightarrow> string \<Rightarrow> failure + mass_table" where
  "mass_line ame_be line =
     bindE (substr line 5 5) (\<lambda>N_str.
     bindE (substr line 9 5) (\<lambda>Z_str.
     bindE (substr line 54 13) (\<lambda>BE_str.
     bindE (stoi N_str) (\<lambda>n.
     bindE (stoi Z_str) (\<lambda>z.
       let Ni = to_short n; Zi = to_short z; Ai = to_short (Ni + Zi)
       in AddBindingEnergy ame_be Ai Zi BE_str)))))"

fun mass_lines :: "mass_table \<Rightarrow> string list \<Rightarrow> failure + mass_table" where
  "mass_lines ame_be [] = Inr ame_be"
| "mass_lines ame_be (line # rest) = bindE (mass_line ame_be line) (\<lambda>m. mass_lines m rest)"

definition ReadMassTables :: "string list option \<Rightarrow> failure + mass_table" where
  "ReadMassTables input_file =
     (case input_file of
        None \<Rightarrow> Inl (Exit 1)
      | Some ls \<Rightarrow>
          bindE (case ls of [] \<Rightarrow> find_startline [] [] | line # rest \<Rightarrow> find_startline line rest)
            (\<lambda>after_start. mass_lines Map.empty (tl after_start)))"

text \<open>
  \<open>ISSParticle\<close> with the members the reading of the reaction partners sets
  (Reaction.hh lines 139-141); \<open>GetIsotope\<close> is Reaction.hh lines 110-112.
\<close>

record ISSParticle =
  A :: int
  Z :: int
  bindingE :: binding_energy

definition GetIsotope :: "int \<Rightarrow> int \<Rightarrow> failure + string" where
  "GetIsotope a z = bindE (vector_at gElName z) (\<lambda>el. Inr (to_string a @ el))"

text \<open>
  One reaction partner of \<open>ISSReaction::ReadReaction\<close> (Reaction.cc lines 265-312; the
  source repeats the block for beam, target, ejectile and recoil): read A and Z, leave
  with \<open>exit(1)\<close> on a proton number outside the element table, then look the
  isotope up in the mass table.
\<close>

definition recognised :: "int \<Rightarrow> bool" where
  "recognised z = (\<not> (z < 0 \<or> z \<ge> int (length gElName)))"

definition read_partner :: "mass_table \<Rightarrow> int \<Rightarrow> int \<Rightarrow> failure + ISSParticle" where
  "read_partner ame_be a z =
     (if z < 0 \<or> z \<ge> int (length gElName) then Inl (Exit 1)
      else bindE (GetIsotope a z) (\<lambda>iso.
           bindE (map_at ame_be iso) (\<lambda>be.
             Inr \<lparr> A = a, Z = z, bindingE = be \<rparr>)))"

record reaction_partners =
  Beam :: ISSParticle
  Target :: ISSParticle
  Ejectile :: ISSParticle
  Recoil :: ISSParticle

definition ReadReaction_partners :: "mass_table \<Rightarrow> TEnv \<Rightarrow> failure + reaction_partners" where
  "ReadReaction_partners ame_be config =
     bindE (read_partner ame_be (GetValue config ''BeamA'' 30) (GetValue config ''BeamZ'' 12)) (\<lambda>b.
     bindE (read_partner ame_be (GetValue config ''TargetA'' 2) (GetValue config ''TargetZ'' 1)) (\<lambda>t.
     bindE (read_partner ame_be (GetValue config ''EjectileA'' 1) (GetValue config ''EjectileZ'' 1)) (\<lambda>e.
     bindE (read_partner ame_be (GetValue config ''RecoilA'' 31) (GetValue config ''RecoilZ'' 12)) (\<lambda>r.
       Inr \<lparr> Beam = b, Target = t, Ejectile = e, Recoil = r \<rparr>))))"

text \<open>
  The constructor, Reaction.cc lines 107-136: the mass tables, then the reaction file.
  What \<open>ReadReaction\<close> and the constructor do after the four partners (cuts, time
  windows, stopping powers, the root finder) is the parameter \<open>rest\<close>.
\<close>

definition ISSReaction_constructor ::
  "(mass_table \<Rightarrow> reaction_partners \<Rightarrow> failure + 'a) \<Rightarrow> string list option \<Rightarrow> TEnv \<Rightarrow> failure + 'a" where
  "ISSReaction_constructor rest input_file config =
     bindE (ReadMassTables input_file) (\<lambda>ame_be.
     bindE (ReadReaction_partners ame_be config) (\<lambda>partners. rest ame_be partners))"

text \<open>
  A mass table in the layout of the AME2020 file (one data line, for 30Mg), used to
  run the constructor on concrete inputs.
\<close>

definition sample_mass_table :: "string list" where
  "sample_mass_table =
    [''1N-Z    N    Z   A  EL    O     MASS EXCESS           BINDING ENERGY/A'',
     ''                               (keV)                     (keV)'',
     ''0  6   18   12   30 Mg          -8883.7620      3.4000    8054.5061     0.1133'']"

text \<open>The same table with an empty line after its data line.\<close>

definition blank_line_mass_table :: "string list" where
  "blank_line_mass_table = sample_mass_table @ [[]]"

text \<open>A rest of the constructor that returns the partners it was given.\<close>

definition return_partners :: "mass_table \<Rightarrow> reaction_partners \<Rightarrow> failure + reaction_partners" where
  "return_partners ame_be partners = Inr partners"

definition unrecognised_partner :: "TEnv \<Rightarrow> bool" where
  "unrecognised_partner config =
     (\<not> recognised (GetValue config ''BeamZ'' 12) \<or> \<not> recognised (GetValue config ''TargetZ'' 1)
      \<or> \<not> recognised (GetValue config ''EjectileZ'' 1) \<or> \<not> recognised (GetValue config ''RecoilZ'' 12))"

section \<open>ISSHistogrammer (src/src/Histogrammer.cc)\<close>

text \<open>
  The loop over the recoil events of one physics event for one array event,
  \<open>ISSHistogrammer::FillHists\<close>, Histogrammer.cc lines 1202-1237.  Time stamps are
  converted to \<open>double\<close> and subtracted, idealised as reals.  The histograms filled
  inside the loop do not feed back into the selection and are left out.
  \<open>PromptCoincidence\<close> is declared in Histogrammer.hh and enters as a parameter.
\<close>

record ISSArrayEvt =
  array_time :: nat
  array_module :: nat

record ISSRecoilEvt =
  recoil_time :: nat
  recoil_sector :: nat

definition tdiff_of :: "ISSArrayEvt \<Rightarrow> ISSRecoilEvt \<Rightarrow> real" where
  "tdiff_of array_evt recoil_evt = real (recoil_time recoil_evt) - real (array_time array_evt)"

fun recoil_loop :: "ISSArrayEvt \<Rightarrow> ISSRecoilEvt list \<Rightarrow> nat \<Rightarrow> real \<times> int \<Rightarrow> real \<times> int" where
  "recoil_loop array_evt [] k (tdiff_min, recoil_idx) = (tdiff_min, recoil_idx)"
| "recoil_loop array_evt (recoil_evt # evts) k (tdiff_min, recoil_idx) =
     (let tdiff = tdiff_of array_evt recoil_evt
      in if tdiff < tdiff_min
         then recoil_loop array_evt evts (Suc k) (tdiff, int k)
         else recoil_loop array_evt evts (Suc k) (tdiff_min, recoil_idx))"

definition closest_recoil :: "ISSArrayEvt \<Rightarrow> ISSRecoilEvt list \<Rightarrow> int" where
  "closest_recoil array_evt evts = snd (recoil_loop array_evt evts 0 (99999, - 1))"

text \<open>The recoil events handed to \<open>PromptCoincidence\<close> after the loop.\<close>

definition recoils_tested :: "ISSArrayEvt \<Rightarrow> ISSRecoilEvt list \<Rightarrow> ISSRecoilEvt list" where
  "recoils_tested array_evt evts =
     (let recoil_idx = closest_recoil array_evt evts
      in if recoil_idx \<ge> 0 then [evts ! nat recoil_idx] else [])"

text \<open>The recoil events whose data fill the recoil-gated histograms.\<close>

definition recoil_gated ::
  "(ISSRecoilEvt \<Rightarrow> ISSArrayEvt \<Rightarrow> bool) \<Rightarrow> ISSArrayEvt \<Rightarrow> ISSRecoilEvt list \<Rightarrow> ISSRecoilEvt list" where
  "recoil_gated PromptCoincidence array_evt evts =
     filter (\<lambda>r. PromptCoincidence r array_evt) (recoils_tested array_evt evts)"

text \<open>A coincidence test that accepts every pair.\<close>

definition always_prompt :: "ISSRecoilEvt \<Rightarrow> ISSArrayEvt \<Rightarrow> bool" where
  "always_prompt r a = True"

section \<open>ISSEventBuilder (src/include/EventBuilder.hh)\<close>

text \<open>
  EventBuilder.hh declares \<open>BuildEvents\<close> and the members it works on; the file that
  defines it (EventBuilder.cc) is not among the sources.  The data model and the Window
  Assembler of this section are therefore modelled from the spec, sections 3, 4.1,
  4.2, 5, 6 and 9, and each definition says so.
\<close>

subsection \<open>Data model\<close>

text \<open>
  Modelled from the spec: the Hit and CalibratedHit of section 3 (the input entries of
  \<open>BuildEvents\<close>, whose reading code is missing).  The amplitude is absent for INFO
  hits.
\<close>

datatype detector_class = ASIC | CAEN | INFO

record Hit =
  det_class :: detector_class
  module_id :: nat
  channel_id :: nat
  raw_amplitude :: "nat option"
  raw_timestamp :: int

record CalibratedHit = Hit +
  energy :: int
  walk :: int
  above_threshold :: bool

text \<open>
  Modelled from the spec: the Window of section 3 (built inside the missing
  \<open>BuildEvents\<close>).  Each hit is stored with the corrected time it had when it was fed.
\<close>

record window =
  window_start :: int
  window_hits :: "(int \<times> CalibratedHit) list"

text \<open>
  Modelled from the spec: the configuration of section 6 and the interface of the
  Timing Tracker of section 4.2 (\<open>CorrectTime(moduleId, rawTimestamp)\<close>, the update by
  INFO hits, the pause flag of a module), whose code is missing.  The tracker's state
  is a type parameter and its operations are parameters: the spec fixes their
  interface, not their arithmetic.  The build window is a length in ns.
\<close>

record 'tr assembler_config =
  build_window :: nat
  rollback_tolerance :: nat
  CorrectTime :: "'tr \<Rightarrow> nat \<Rightarrow> int \<Rightarrow> int"
  TrackerUpdate :: "'tr \<Rightarrow> CalibratedHit \<Rightarrow> 'tr"
  Paused :: "'tr \<Rightarrow> nat \<Rightarrow> bool"

text \<open>
  Modelled from the spec: the state of the Window Assembler of section 4.1 (members of
  \<open>ISSEventBuilder\<close> that the missing \<open>BuildEvents\<close> updates): the tracker, the
  window that is open, the windows closed so far in closing order, the corrected time of
  the last accepted hit, and the count of hits dropped for moving backward.
\<close>

record 'tr assembler =
  tracker :: 'tr
  open_window :: "window option"
  closed_windows :: "window list"
  time_prev :: "int option"
  n_rollback :: nat

subsection \<open>Window Assembler\<close>

text \<open>Modelled from the spec: the state at the start of \<open>BuildEvents\<close> (section 4.1, state CLOSED).\<close>

definition initial :: "'tr \<Rightarrow> 'tr assembler" where
  "initial tr = \<lparr> tracker = tr, open_window = None, closed_windows = [],
                  time_prev = None, n_rollback = 0 \<rparr>"

text \<open>Modelled from the spec: \<open>corrected_time(hit)\<close> of section 3, by the tracker's \<open>CorrectTime\<close> (section 4.2).\<close>

definition corrected_time :: "'tr assembler_config \<Rightarrow> 'tr assembler \<Rightarrow> CalibratedHit \<Rightarrow> int" where
  "corrected_time cfg s h = CorrectTime cfg (tracker s) (module_id h) (raw_timestamp h)"

text \<open>
  Modelled from the spec: the bound of a window (section 3, part of the missing
  \<open>BuildEvents\<close>), \<open>bound = window_start + build_window\<close>; a corrected time is within
  the bound when it does not exceed it.
\<close>

definition within_bound :: "'tr assembler_config \<Rightarrow> window \<Rightarrow> int \<Rightarrow> bool" where
  "within_bound cfg w t = (t \<le> window_start w + int (build_window cfg))"

text \<open>
  Modelled from the spec: the failure semantics of section 4.1 (part of the missing
  \<open>BuildEvents\<close>): a corrected time that moves backward beyond the tolerance.
\<close>

definition rolled_back :: "'tr assembler_config \<Rightarrow> 'tr assembler \<Rightarrow> CalibratedHit \<Rightarrow> bool" where
  "rolled_back cfg s h =
     (case time_prev s of
        None \<Rightarrow> False
      | Some tp \<Rightarrow> corrected_time cfg s h + int (rollback_tolerance cfg) < tp)"

text \<open>
  Modelled from the spec: the hits that take part in windows (section 4.1 of the
  missing \<open>BuildEvents\<close>): amplitude-bearing (ASIC or CAEN), above threshold, and not
  dropped for moving backward.
\<close>

definition accepted :: "'tr assembler_config \<Rightarrow> 'tr assembler \<Rightarrow> CalibratedHit \<Rightarrow> bool" where
  "accepted cfg s h =
     (det_class h \<noteq> INFO \<and> above_threshold h \<and> \<not> rolled_back cfg s h)"

text \<open>
  Modelled from the spec: what the missing \<open>BuildEvents\<close> does with the current hit
  (section 4.1).  An INFO hit updates the tracker and nothing else.  A hit below
  threshold is ignored, a hit that moved backward is counted and dropped.  An accepted
  hit opens a window at its corrected time when none is open (unless its module is
  paused, section 4.2), and is appended to the open window otherwise.
\<close>

definition absorb :: "'tr assembler_config \<Rightarrow> 'tr assembler \<Rightarrow> CalibratedHit \<Rightarrow> 'tr assembler" where
  "absorb cfg s h =
     (if det_class h = INFO then s\<lparr> tracker := TrackerUpdate cfg (tracker s) h \<rparr>
      else if \<not> above_threshold h then s
      else if rolled_back cfg s h then s\<lparr> n_rollback := Suc (n_rollback s) \<rparr>
      else let t = corrected_time cfg s h in
        (case open_window s of
           None \<Rightarrow>
             if Paused cfg (tracker s) (module_id h) then s
             else s\<lparr> open_window := Some \<lparr> window_start = t, window_hits = [(t, h)] \<rparr>,
                      time_prev := Some t \<rparr>
         | Some w \<Rightarrow>
             s\<lparr> open_window := Some (w\<lparr> window_hits := window_hits w @ [(t, h)] \<rparr>),
                time_prev := Some t \<rparr>))"

text \<open>
  Modelled from the spec: the boundary decision of the missing \<open>BuildEvents\<close>
  (\<open>flag_close_event\<close>), taken on the next hit of the stream (sections 3 and 4.1): the
  open window closes when the next hit is an accepted hit whose corrected time is
  outside the bound.  An INFO hit is never accepted, so it never closes a window.
\<close>

definition must_close :: "'tr assembler_config \<Rightarrow> 'tr assembler \<Rightarrow> CalibratedHit \<Rightarrow> bool" where
  "must_close cfg s nxt =
     (case open_window s of
        None \<Rightarrow> False
      | Some w \<Rightarrow> accepted cfg s nxt \<and> \<not> within_bound cfg w (corrected_time cfg s nxt))"

text \<open>Modelled from the spec: closing the open window (section 4.1, OPEN to CLOSED): it joins the closed windows.\<close>

definition close_window :: "'tr assembler \<Rightarrow> 'tr assembler" where
  "close_window s =
     (case open_window s of
        None \<Rightarrow> s
      | Some w \<Rightarrow> s\<lparr> open_window := None, closed_windows := closed_windows s @ [w] \<rparr>)"

text \<open>
  Modelled from the spec: one iteration of the feed loop of the missing \<open>BuildEvents\<close>
  (sections 4.1, 5 and 9): the current hit is absorbed, then the next hit of the stream
  is looked at, without being consumed, to decide whether the window closes.  At the
  end of the stream the open window is closed.
\<close>

definition iteration ::
  "'tr assembler_config \<Rightarrow> 'tr assembler \<Rightarrow> CalibratedHit \<Rightarrow> CalibratedHit option \<Rightarrow> 'tr assembler" where
  "iteration cfg s cur nxt =
     (let s1 = absorb cfg s cur
      in case nxt of
           None \<Rightarrow> close_window s1
         | Some n \<Rightarrow> if must_close cfg s1 n then close_window s1 else s1)"

text \<open>Modelled from the spec: the one-hit lookahead of the peekable input stream (section 6).\<close>

definition peek :: "'a list \<Rightarrow> 'a option" where
  "peek xs = (case xs of [] \<Rightarrow> None | x # rest \<Rightarrow> Some x)"

text \<open>
  Modelled from the spec: the feed loop of the missing \<open>BuildEvents\<close> over the sorted
  stream, and the loop cut off after \<open>k\<close> iterations (the state an observer sees
  after the \<open>k\<close>-th hit was absorbed).
\<close>

fun feed_loop :: "'tr assembler_config \<Rightarrow> 'tr assembler \<Rightarrow> CalibratedHit list \<Rightarrow> 'tr assembler" where
  "feed_loop cfg s [] = s"
| "feed_loop cfg s (cur # rest) = feed_loop cfg (iteration cfg s cur (peek rest)) rest"

fun feed_loop_upto ::
  "nat \<Rightarrow> 'tr assembler_config \<Rightarrow> 'tr assembler \<Rightarrow> CalibratedHit list \<Rightarrow> 'tr assembler" where
  "feed_loop_upto 0 cfg s hs = s"
| "feed_loop_upto (Suc k) cfg s [] = s"
| "feed_loop_upto (Suc k) cfg s (cur # rest) =
     feed_loop_upto k cfg (iteration cfg s cur (peek rest)) rest"

text \<open>Modelled from the spec: \<open>BuildEvents\<close> (EventBuilder.hh line 89; section 4.1), from the initial state.\<close>

definition BuildEvents :: "'tr assembler_config \<Rightarrow> 'tr \<Rightarrow> CalibratedHit list \<Rightarrow> 'tr assembler" where
  "BuildEvents cfg tr hs = feed_loop cfg (initial tr) hs"

section \<open>Invariants of the feed loop and sample inputs\<close>

text \<open>
  For the proofs: the second half of \<open>iteration\<close> (the decision on the next hit) as a
  step of its own, the stream without its INFO hits, the configurations whose clock
  correction and pause flags do not depend on the tracker's state, and the part of the
  assembler's state that is not the tracker.
\<close>

definition decide :: "'tr assembler_config \<Rightarrow> 'tr assembler \<Rightarrow> CalibratedHit option \<Rightarrow> 'tr assembler" where
  "decide cfg s nxt =
     (case nxt of
        None \<Rightarrow> close_window s
      | Some n \<Rightarrow> if must_close cfg s n then close_window s else s)"

definition amplitude_hits :: "CalibratedHit list \<Rightarrow> CalibratedHit list" where
  "amplitude_hits hs = filter (\<lambda>h. det_class h \<noteq> INFO) hs"

definition clock_fixed :: "'tr assembler_config \<Rightarrow> bool" where
  "clock_fixed cfg =
     ((\<forall>tr1 tr2 m t. CorrectTime cfg tr1 m t = CorrectTime cfg tr2 m t)
      \<and> (\<forall>tr1 tr2 m. Paused cfg tr1 m = Paused cfg tr2 m))"

definition windows_of :: "'tr assembler \<Rightarrow> window option \<times> window list \<times> int option \<times> nat" where
  "windows_of s = (open_window s, closed_windows s, time_prev s, n_rollback s)"

text \<open>A window all of whose hits are amplitude-bearing and above threshold, and the states whose windows are such.\<close>

definition amplitude_window :: "window \<Rightarrow> bool" where
  "amplitude_window w = list_all (\<lambda>(t, h). det_class h \<noteq> INFO \<and> above_threshold h) (window_hits w)"

definition amplitude_inv :: "'tr assembler \<Rightarrow> bool" where
  "amplitude_inv s = (list_all amplitude_window (closed_windows s)
     \<and> (case open_window s of None \<Rightarrow> True | Some w \<Rightarrow> amplitude_window w))"

text \<open>
  A configuration and hits to run the assembler on: a build window of 50 ns, a
  tracker that counts the INFO hits and leaves time stamps as they are.
\<close>

definition sample_config :: "nat assembler_config" where
  "sample_config = \<lparr> build_window = 50, rollback_tolerance = 0,
       CorrectTime = (\<lambda>tr m t. t), TrackerUpdate = (\<lambda>tr h. Suc tr), Paused = (\<lambda>tr m. False) \<rparr>"

definition amp_hit :: "detector_class \<Rightarrow> nat \<Rightarrow> nat \<Rightarrow> nat \<Rightarrow> int \<Rightarrow> CalibratedHit" where
  "amp_hit c m ch amp t = \<lparr> det_class = c, module_id = m, channel_id = ch, raw_amplitude = Some amp,
       raw_timestamp = t, energy = int amp, walk = 0, above_threshold = True \<rparr>"

definition info_hit :: "nat \<Rightarrow> int \<Rightarrow> CalibratedHit" where
  "info_hit code t = \<lparr> det_class = INFO, module_id = 0, channel_id = code, raw_amplitude = None,
       raw_timestamp = t, energy = 0, walk = 0, above_threshold = False \<rparr>"

section \<open>Theorems\<close>

lemma array2_read_defined: "i < 2 \<Longrightarrow> array2_read a i \<noteq> None"
  by (cases a) auto

lemma uchar_less_2: "(i :: uchar) < 2 \<Longrightarrow> unat i < 2"
  by (simp add: word_less_nat_alt)

text \<open>
  C9.  For every index of 2 or more, \<open>GetArrayRecoilPromptTime\<close> and
  \<open>GetArrayRecoilRandomTime\<close> return 0 and read nothing; for the indices 0 and 1
  they return the lower and the upper limit, which \<open>ReadReaction\<close> takes from the
  reaction file.  No \<open>unsigned char\<close> index leads to an out-of-bounds read.
\<close>

theorem getters_total:
  "(\<forall>i. 2 \<le> i \<longrightarrow> GetArrayRecoilPromptTime r i = Some 0 \<and> GetArrayRecoilRandomTime r i = Some 0)
   \<and> (\<forall>i. GetArrayRecoilPromptTime r i \<noteq> None \<and> GetArrayRecoilRandomTime r i \<noteq> None)
   \<and> (\<forall>lo hi. array_recoil_prompt r = Array2 lo hi \<longrightarrow>
          GetArrayRecoilPromptTime r 0 = Some lo \<and> GetArrayRecoilPromptTime r 1 = Some hi)
   \<and> (\<forall>lo hi. array_recoil_random r = Array2 lo hi \<longrightarrow>
          GetArrayRecoilRandomTime r 0 = Some lo \<and> GetArrayRecoilRandomTime r 1 = Some hi)
   \<and> GetArrayRecoilPromptTime (ReadReaction_time_windows config) 0
        = Some (real_of_int (GetValue config ''ArrayRecoil_PromptTime.Min'' (- 300)))
   \<and> GetArrayRecoilPromptTime (ReadReaction_time_windows config) 1
        = Some (real_of_int (GetValue config ''ArrayRecoil_PromptTime.Max'' 300))
   \<and> GetArrayRecoilRandomTime (ReadReaction_time_windows config) 0
        = Some (real_of_int (GetValue config ''ArrayRecoil_RandomTime.Min'' 600))
   \<and> GetArrayRecoilRandomTime (ReadReaction_time_windows config) 1
        = Some (real_of_int (GetValue config ''ArrayRecoil_RandomTime.Max'' 1200))"
proof -
  have ge2: "\<And>i :: uchar. 2 \<le> i \<Longrightarrow> \<not> i < 2"
    by (simp add: not_less)
  have a: "\<forall>i. 2 \<le> i \<longrightarrow> GetArrayRecoilPromptTime r i = Some 0 \<and> GetArrayRecoilRandomTime r i = Some 0"
    by (simp add: GetArrayRecoilPromptTime_def GetArrayRecoilRandomTime_def ge2)
  have b: "\<forall>i. GetArrayRecoilPromptTime r i \<noteq> None \<and> GetArrayRecoilRandomTime r i \<noteq> None"
    by (auto simp: GetArrayRecoilPromptTime_def GetArrayRecoilRandomTime_def
        simp del: not_None_eq intro!: array2_read_defined uchar_less_2)
  have c: "\<forall>lo hi. array_recoil_prompt r = Array2 lo hi \<longrightarrow>
          GetArrayRecoilPromptTime r 0 = Some lo \<and> GetArrayRecoilPromptTime r 1 = Some hi"
    by (simp add: GetArrayRecoilPromptTime_def)
  have d: "\<forall>lo hi. array_recoil_random r = Array2 lo hi \<longrightarrow>
          GetArrayRecoilRandomTime r 0 = Some lo \<and> GetArrayRecoilRandomTime r 1 = Some hi"
    by (simp add: GetArrayRecoilRandomTime_def)
  have e: "GetArrayRecoilPromptTime (ReadReaction_time_windows config) 0
        = Some (real_of_int (GetValue config ''ArrayRecoil_PromptTime.Min'' (- 300)))"
     "GetArrayRecoilPromptTime (ReadReaction_time_windows config) 1
        = Some (real_of_int (GetValue config ''ArrayRecoil_PromptTime.Max'' 300))"
     "GetArrayRecoilRandomTime (ReadReaction_time_windows config) 0
        = Some (real_of_int (GetValue config ''ArrayRecoil_RandomTime.Min'' 600))"
     "GetArrayRecoilRandomTime (ReadReaction_time_windows config) 1
        = Some (real_of_int (GetValue config ''ArrayRecoil_RandomTime.Max'' 1200))"
    by (simp_all add: GetArrayRecoilPromptTime_def GetArrayRecoilRandomTime_def ReadReaction_time_windows_def)
  from a b c d e show ?thesis by blast
qed

theorem getters_total_witness:
  "GetArrayRecoilPromptTime (ReadReaction_time_windows (map_of [(''ArrayRecoil_PromptTime.Max'', 250)])) 5 = Some 0
   \<and> GetArrayRecoilRandomTime (ReadReaction_time_windows (map_of [])) 255 = Some 0
   \<and> GetArrayRecoilPromptTime (ReadReaction_time_windows (map_of [(''ArrayRecoil_PromptTime.Max'', 250)])) 0 = Some (- 300)
   \<and> GetArrayRecoilPromptTime (ReadReaction_time_windows (map_of [(''ArrayRecoil_PromptTime.Max'', 250)])) 1 = Some 250"
  using getters_total [of "ReadReaction_time_windows (map_of [(''ArrayRecoil_PromptTime.Max'', 250)])" "map_of [(''ArrayRecoil_PromptTime.Max'', 250)]"]
    getters_total [of "ReadReaction_time_windows (map_of [])" "map_of []"]
  by (simp add: GetValue_def)

lemma floor_rat_numeral: "\<lfloor>numeral a / numeral b :: rat\<rfloor> = numeral a div numeral b"
  by (metis floor_divide_of_int_eq of_int_numeral)

lemmas double_eval = GetEnergyLoss_def Nmeshpoints_def constant_stopping_def rounded_def
  round_magnitude_def round_half_even_def exponent_of_def exponent_up.simps exponent_down.simps
  pow2_def value_of_def Let_def floor_rat_numeral

lemma loop_below: "dless E (Finite False 100) \<Longrightarrow> GetEnergyLoss_loop g dx n E = E"
  by (cases n) auto

lemma loop_eq: "GetEnergyLoss_loop g dx n E = integrate_steps g dx (steps_taken g dx n E) E"
  by (induction n arbitrary: E) auto

lemma steps_le: "steps_taken g dx n E \<le> n"
  by (induction n arbitrary: E) auto

lemma steps_above:
  "k < steps_taken g dx n E \<Longrightarrow> \<not> dless (integrate_steps g dx k E) (Finite False 100)"
proof (induction n arbitrary: E k)
  case 0 then show ?case by simp
next
  case (Suc n)
  show ?case
  proof (cases k)
    case 0 with Suc.prems show ?thesis by (auto split: if_splits)
  next
    case (Suc j)
    with Suc.prems Suc.IH [of j "dsub E (dmul (g E) dx)"] show ?thesis by (auto split: if_splits)
  qed
qed

lemma steps_early:
  "steps_taken g dx n E < n \<Longrightarrow>
     dless (integrate_steps g dx (steps_taken g dx n E) E) (Finite False 100)"
  by (induction n arbitrary: E) auto

text \<open>
  What holds of the loop.  \<open>GetEnergyLoss\<close> returns the initial energy minus the
  energy after \<open>k\<close> integration steps of width \<open>dst / 50\<close>, where \<open>k\<close> is at most
  50, no energy before a step was below 100 keV, and fewer than 50 steps means that
  the energy fell below 100 keV.  Below 100 keV the loop breaks before its first step,
  whatever the distance and the stopping power: the loss of a finite initial energy
  is \<open>+0.0\<close>.
\<close>

lemma energy_loss_integration:
  "GetEnergyLoss Ei dst g
      = dsub Ei (integrate_steps g (ddiv dst (Finite False 50))
                   (steps_taken g (ddiv dst (Finite False 50)) 50 Ei) Ei)
   \<and> steps_taken g (ddiv dst (Finite False 50)) 50 Ei \<le> 50
   \<and> (\<forall>j < steps_taken g (ddiv dst (Finite False 50)) 50 Ei.
         \<not> dless (integrate_steps g (ddiv dst (Finite False 50)) j Ei) (Finite False 100))
   \<and> (steps_taken g (ddiv dst (Finite False 50)) 50 Ei < 50 \<longrightarrow>
         dless (integrate_steps g (ddiv dst (Finite False 50))
                  (steps_taken g (ddiv dst (Finite False 50)) 50 Ei) Ei) (Finite False 100))"
  using steps_above [of _ g "ddiv dst (Finite False 50)" 50 Ei]
    steps_early [of g "ddiv dst (Finite False 50)" 50 Ei]
  by (simp add: GetEnergyLoss_def Nmeshpoints_def loop_eq steps_le Let_def)

lemma energy_loss_below_threshold:
  "dless (Finite s a) (Finite False 100) \<Longrightarrow> GetEnergyLoss (Finite s a) dst g = Finite False 0"
  by (simp add: GetEnergyLoss_def loop_below Let_def)

text \<open>
  The arithmetic is that of the machine.  For 101 keV over a distance of 10 with a
  stopping power of 1, five steps of the rounded width \<open>10 / 50\<close> leave a loss of
  \<open>1 + 2 ^ - 46\<close> (1.0000000000000142), not 1.  A step smaller than half a unit in the
  last place of the energy is lost in rounding: for 200 keV and the distance
  \<open>- 1e-13\<close> the fifty steps change nothing, and the loss is 0.
\<close>

lemma energy_loss_rounded:
  "GetEnergyLoss (Finite False 101) (Finite False 10) (constant_stopping (Finite False 1))
     = Finite False (70368744177665 / 70368744177664)"
  by (simp add: double_eval eval_nat_numeral)

lemma tiny_step:
  "ddiv (Finite True (3961408125713217 / 39614081257132168796771975168)) (Finite False 50)
     = Finite True (2535301200456459 / 1267650600228229401496703205376)"
  "dsub (Finite False 200)
        (dmul (Finite False 1) (Finite True (2535301200456459 / 1267650600228229401496703205376)))
     = Finite False 200"
  by (simp_all add: double_eval)

lemma energy_loss_tiny_step:
  "GetEnergyLoss (Finite False 200)
      (Finite True (3961408125713217 / 39614081257132168796771975168))
      (constant_stopping (Finite False 1))
     = Finite False 0"
proof -
  have "GetEnergyLoss_loop (constant_stopping (Finite False 1))
          (Finite True (2535301200456459 / 1267650600228229401496703205376)) 50 (Finite False 200)
        = Finite False 200"
    by (simp add: constant_stopping_def tiny_step eval_nat_numeral value_of_def
        del: dsub.simps dmul.simps)
  then show ?thesis
    by (simp add: GetEnergyLoss_def Nmeshpoints_def tiny_step(1) del: ddiv.simps)
qed




lemma find_startline_none:
  "take 4 line \<noteq> ''1N-Z'' \<Longrightarrow> \<forall>l\<in>set ls. take 4 l \<noteq> ''1N-Z'' \<Longrightarrow>
     find_startline line ls = Inl (Exit 1)"
  by (induction ls arbitrary: line) auto

lemma ReadMassTables_unopened: "ReadMassTables None = Inl (Exit 1)"
  by (simp add: ReadMassTables_def)

lemma ReadMassTables_no_start:
  "\<forall>l\<in>set ls. take 4 l \<noteq> ''1N-Z'' \<Longrightarrow> ReadMassTables (Some ls) = Inl (Exit 1)"
  by (cases ls) (simp_all add: ReadMassTables_def bindE_def find_startline_none)

lemma read_partner_unrecognised:
  "\<not> recognised z \<Longrightarrow> read_partner ame_be a z = Inl (Exit 1)"
  by (auto simp: recognised_def read_partner_def)

lemma read_partner_cases:
  "read_partner ame_be a z = Inl (Exit 1) \<or> read_partner ame_be a z = Inl (Uncaught out_of_range)
   \<or> (\<exists>p. read_partner ame_be a z = Inr p \<and> recognised z)"
  by (auto simp: read_partner_def recognised_def GetIsotope_def vector_at_def bindE_def map_at_def
      split: option.splits)

lemma partners_fail:
  assumes "unrecognised_partner config"
  shows "ReadReaction_partners ame_be config = Inl (Exit 1)
     \<or> ReadReaction_partners ame_be config = Inl (Uncaught out_of_range)"
proof -
  let ?b = "read_partner ame_be (GetValue config ''BeamA'' 30) (GetValue config ''BeamZ'' 12)"
  let ?t = "read_partner ame_be (GetValue config ''TargetA'' 2) (GetValue config ''TargetZ'' 1)"
  let ?e = "read_partner ame_be (GetValue config ''EjectileA'' 1) (GetValue config ''EjectileZ'' 1)"
  let ?r = "read_partner ame_be (GetValue config ''RecoilA'' 31) (GetValue config ''RecoilZ'' 12)"
  note c = read_partner_cases [of ame_be]
  from c [of "GetValue config ''BeamA'' 30" "GetValue config ''BeamZ'' 12"]
       c [of "GetValue config ''TargetA'' 2" "GetValue config ''TargetZ'' 1"]
       c [of "GetValue config ''EjectileA'' 1" "GetValue config ''EjectileZ'' 1"]
       c [of "GetValue config ''RecoilA'' 31" "GetValue config ''RecoilZ'' 12"]
       assms [unfolded unrecognised_partner_def]
  show ?thesis
    unfolding ReadReaction_partners_def
    by (elim disjE exE conjE) (simp_all add: bindE_def)
qed

lemma find_startline_exit: "find_startline line ls = Inl f \<Longrightarrow> f = Exit 1"
  by (induction ls arbitrary: line) (auto split: if_splits)

lemma exn_cases: "f = Uncaught e \<Longrightarrow> f = Uncaught out_of_range \<or> f = Uncaught invalid_argument"
  by (cases e) simp_all

lemma mass_line_uncaught: "mass_line ame_be line = Inl f \<Longrightarrow> \<exists>e. f = Uncaught e"
  by (auto simp: mass_line_def substr_def stoi_def AddBindingEnergy_def vector_at_def bindE_def
      Let_def split: if_splits sum.splits)

lemma mass_lines_uncaught: "mass_lines ame_be ls = Inl f \<Longrightarrow> \<exists>e. f = Uncaught e"
proof (induction ls arbitrary: ame_be)
  case Nil
  then show ?case by simp
next
  case (Cons line rest)
  show ?case
  proof (cases "mass_line ame_be line")
    case (Inl f')
    with Cons.prems mass_line_uncaught [of ame_be line f'] show ?thesis
      by (simp add: bindE_def)
  next
    case (Inr m)
    with Cons.prems Cons.IH [of m] show ?thesis
      by (simp add: bindE_def)
  qed
qed

lemma ReadMassTables_failure:
  assumes "ReadMassTables input_file = Inl f"
  shows "f = Exit 1 \<or> f = Uncaught out_of_range \<or> f = Uncaught invalid_argument"
proof (cases input_file)
  case None
  with assms show ?thesis by (simp add: ReadMassTables_def)
next
  case (Some ls)
  let ?start = "case ls of [] \<Rightarrow> find_startline [] [] | line # rest \<Rightarrow> find_startline line rest"
  show ?thesis
  proof (cases ?start)
    case (Inl f')
    then have "f' = Exit 1"
      using find_startline_exit by (cases ls) auto
    with Inl Some assms show ?thesis by (simp add: ReadMassTables_def bindE_def)
  next
    case (Inr after_start)
    with Some assms have "mass_lines Map.empty (tl after_start) = Inl f"
      by (simp add: ReadMassTables_def bindE_def)
    from mass_lines_uncaught [OF this] exn_cases show ?thesis by blast
  qed
qed

lemma ctor_fail:
  assumes "unrecognised_partner config"
  shows "ISSReaction_constructor rest input_file config = Inl (Exit 1)
    \<or> ISSReaction_constructor rest input_file config = Inl (Uncaught out_of_range)
    \<or> ISSReaction_constructor rest input_file config = Inl (Uncaught invalid_argument)"
proof (cases "ReadMassTables input_file")
  case (Inl e)
  with ReadMassTables_failure [OF Inl] show ?thesis
    by (auto simp: ISSReaction_constructor_def bindE_def)
next
  case (Inr ame_be)
  with partners_fail [OF assms, of ame_be] show ?thesis
    by (auto simp: ISSReaction_constructor_def bindE_def)
qed

lemma sample_mass_line:
  "mass_line Map.empty
     ''0  6   18   12   30 Mg          -8883.7620      3.4000    8054.5061     0.1133''
   = Inr (Map.empty(''30Mg'' \<mapsto> Atof ''    8054.5061''))"
  by (simp add: mass_line_def substr_def bindE_def stoi_def isspace_def isdigit_def
      digit_value_def to_short_def AddBindingEnergy_def vector_at_def gElName_def to_string_def
      digits10.simps map_insert_def)

lemma sample_mass_table_read:
  "ReadMassTables (Some sample_mass_table) = Inr (Map.empty(''30Mg'' \<mapsto> Atof ''    8054.5061''))"
  by (simp add: ReadMassTables_def sample_mass_table_def sample_mass_line bindE_def)

lemma sample_beam:
  "read_partner (Map.empty(''30Mg'' \<mapsto> Atof ''    8054.5061'')) 30 12
     = Inr \<lparr>A = 30, Z = 12, bindingE = Atof ''    8054.5061''\<rparr>"
  by (simp add: read_partner_def gElName_def GetIsotope_def vector_at_def bindE_def to_string_def
      digits10.simps map_at_def)

lemma sample_beam_missing:
  "read_partner (Map.empty(''30Mg'' \<mapsto> Atof ''    8054.5061'')) 100 12 = Inl (Uncaught out_of_range)"
  by (simp add: read_partner_def gElName_def GetIsotope_def vector_at_def bindE_def to_string_def
      digits10.simps map_at_def)

lemma mass_line_blank: "mass_line ame_be [] = Inl (Uncaught out_of_range)"
  by (simp add: mass_line_def substr_def bindE_def)

lemma blank_line_mass_table_read:
  "ReadMassTables (Some blank_line_mass_table) = Inl (Uncaught out_of_range)"
  by (simp add: ReadMassTables_def blank_line_mass_table_def sample_mass_table_def sample_mass_line
      mass_line_blank bindE_def)

text \<open>
  What holds of the constructor.  A mass table that cannot be opened, or that has no start
  line, makes the constructor call \<open>exit(1)\<close>.  A reaction partner with an
  unrecognised proton number keeps the constructor from returning (it ends in
  \<open>exit(1)\<close> or in an uncaught \<open>std::out_of_range\<close> or \<open>std::invalid_argument\<close>), and
  in \<open>exit(1)\<close> whenever its check is reached: the mass table was read and every
  partner read before it was found there.  The rest of the constructor, and with it any
  processing, is not reached.
\<close>

lemma constructor_exits:
  "ISSReaction_constructor rest None config = Inl (Exit 1)
   \<and> ((\<forall>l\<in>set ls. take 4 l \<noteq> ''1N-Z'') \<longrightarrow>
         ISSReaction_constructor rest (Some ls) config = Inl (Exit 1))
   \<and> (unrecognised_partner config \<longrightarrow>
         ISSReaction_constructor rest input_file config = Inl (Exit 1)
         \<or> ISSReaction_constructor rest input_file config = Inl (Uncaught out_of_range)
         \<or> ISSReaction_constructor rest input_file config = Inl (Uncaught invalid_argument))
   \<and> (\<forall>ame_be. ReadMassTables input_file = Inr ame_be
         \<and> \<not> recognised (GetValue config ''BeamZ'' 12) \<longrightarrow>
         ISSReaction_constructor rest input_file config = Inl (Exit 1))
   \<and> (\<forall>ame_be b. ReadMassTables input_file = Inr ame_be
         \<and> read_partner ame_be (GetValue config ''BeamA'' 30) (GetValue config ''BeamZ'' 12) = Inr b
         \<and> \<not> recognised (GetValue config ''TargetZ'' 1) \<longrightarrow>
         ISSReaction_constructor rest input_file config = Inl (Exit 1))
   \<and> (\<forall>ame_be b t. ReadMassTables input_file = Inr ame_be
         \<and> read_partner ame_be (GetValue config ''BeamA'' 30) (GetValue config ''BeamZ'' 12) = Inr b
         \<and> read_partner ame_be (GetValue config ''TargetA'' 2) (GetValue config ''TargetZ'' 1) = Inr t
         \<and> \<not> recognised (GetValue config ''EjectileZ'' 1) \<longrightarrow>
         ISSReaction_constructor rest input_file config = Inl (Exit 1))
   \<and> (\<forall>ame_be b t e. ReadMassTables input_file = Inr ame_be
         \<and> read_partner ame_be (GetValue config ''BeamA'' 30) (GetValue config ''BeamZ'' 12) = Inr b
         \<and> read_partner ame_be (GetValue config ''TargetA'' 2) (GetValue config ''TargetZ'' 1) = Inr t
         \<and> read_partner ame_be (GetValue config ''EjectileA'' 1) (GetValue config ''EjectileZ'' 1) = Inr e
         \<and> \<not> recognised (GetValue config ''RecoilZ'' 12) \<longrightarrow>
         ISSReaction_constructor rest input_file config = Inl (Exit 1))"
proof -
  have a: "ISSReaction_constructor rest None config = Inl (Exit 1)"
    by (simp add: ISSReaction_constructor_def ReadMassTables_unopened bindE_def)
  have b: "(\<forall>l\<in>set ls. take 4 l \<noteq> ''1N-Z'') \<longrightarrow>
         ISSReaction_constructor rest (Some ls) config = Inl (Exit 1)"
    by (simp add: ISSReaction_constructor_def ReadMassTables_no_start bindE_def)
  have c: "unrecognised_partner config \<longrightarrow>
         ISSReaction_constructor rest input_file config = Inl (Exit 1)
         \<or> ISSReaction_constructor rest input_file config = Inl (Uncaught out_of_range)
         \<or> ISSReaction_constructor rest input_file config = Inl (Uncaught invalid_argument)"
    using ctor_fail by blast
  have d: "\<forall>ame_be. ReadMassTables input_file = Inr ame_be
         \<and> \<not> recognised (GetValue config ''BeamZ'' 12) \<longrightarrow>
         ISSReaction_constructor rest input_file config = Inl (Exit 1)"
    by (simp add: ISSReaction_constructor_def ReadReaction_partners_def bindE_def
        read_partner_unrecognised)
  have e: "\<forall>ame_be b. ReadMassTables input_file = Inr ame_be
         \<and> read_partner ame_be (GetValue config ''BeamA'' 30) (GetValue config ''BeamZ'' 12) = Inr b
         \<and> \<not> recognised (GetValue config ''TargetZ'' 1) \<longrightarrow>
         ISSReaction_constructor rest input_file config = Inl (Exit 1)"
    by (simp add: ISSReaction_constructor_def ReadReaction_partners_def bindE_def
        read_partner_unrecognised)
  have f: "\<forall>ame_be b t. ReadMassTables input_file = Inr ame_be
         \<and> read_partner ame_be (GetValue config ''BeamA'' 30) (GetValue config ''BeamZ'' 12) = Inr b
         \<and> read_partner ame_be (GetValue config ''TargetA'' 2) (GetValue config ''TargetZ'' 1) = Inr t
         \<and> \<not> recognised (GetValue config ''EjectileZ'' 1) \<longrightarrow>
         ISSReaction_constructor rest input_file config = Inl (Exit 1)"
    by (simp add: ISSReaction_constructor_def ReadReaction_partners_def bindE_def
        read_partner_unrecognised)
  have g: "\<forall>ame_be b t e. ReadMassTables input_file = Inr ame_be
         \<and> read_partner ame_be (GetValue config ''BeamA'' 30) (GetValue config ''BeamZ'' 12) = Inr b
         \<and> read_partner ame_be (GetValue config ''TargetA'' 2) (GetValue config ''TargetZ'' 1) = Inr t
         \<and> read_partner ame_be (GetValue config ''EjectileA'' 1) (GetValue config ''EjectileZ'' 1) = Inr e
         \<and> \<not> recognised (GetValue config ''RecoilZ'' 12) \<longrightarrow>
         ISSReaction_constructor rest input_file config = Inl (Exit 1)"
    by (simp add: ISSReaction_constructor_def ReadReaction_partners_def bindE_def
        read_partner_unrecognised)
  from a b c d e f g show ?thesis by blast
qed


text \<open>
  C6.  The specification has an unreadable mass table and an unrecognised proton
  number end the program in \<open>exit(1)\<close>.  The checks of the proton numbers do so, and
  so do the checks for a mass table that does not open or has no start line.  The look-up of an
  isotope in the mass table (\<open>ame_be.at\<close>) and the reading of a data line
  (\<open>line.substr\<close>) have no such check and nothing catches what they throw.  A beam of
  100Mg, which no mass table holds, with a target of proton number 150: the
  constructor is left by an uncaught \<open>std::out_of_range\<close> before the target's proton
  number is looked at; the same file with the default beam ends in \<open>exit(1)\<close>.  A
  mass table with an empty line after its data: an uncaught \<open>std::out_of_range\<close>,
  where a table without start line ends in \<open>exit(1)\<close>.
\<close>

theorem constructor_uncaught_exception:
  "\<not> recognised (GetValue (map_of [(''BeamA'', 100), (''TargetZ'', 150)]) ''TargetZ'' 1)
   \<and> ISSReaction_constructor return_partners (Some sample_mass_table)
        (map_of [(''BeamA'', 100), (''TargetZ'', 150)]) = Inl (Uncaught out_of_range)
   \<and> ISSReaction_constructor return_partners (Some sample_mass_table)
        (map_of [(''TargetZ'', 150)]) = Inl (Exit 1)
   \<and> ISSReaction_constructor return_partners (Some blank_line_mass_table) (map_of [])
        = Inl (Uncaught out_of_range)
   \<and> ISSReaction_constructor return_partners (Some [''no start line'', ''here'']) (map_of [])
        = Inl (Exit 1)
   \<and> ISSReaction_constructor return_partners None (map_of []) = Inl (Exit 1)"
  by (simp add: ISSReaction_constructor_def sample_mass_table_read blank_line_mass_table_read
      ReadMassTables_unopened ReadMassTables_no_start ReadReaction_partners_def GetValue_def
      sample_beam sample_beam_missing read_partner_unrecognised bindE_def recognised_def gElName_def)

lemma recoil_loop_spec:
  "recoil_loop a rs k (m, idx) = (m', idx') \<Longrightarrow>
     (if \<forall>r\<in>set rs. m \<le> tdiff_of a r then m' = m \<and> idx' = idx
      else \<exists>i<length rs. idx' = int (k + i) \<and> m' = tdiff_of a (rs ! i) \<and> m' < m
             \<and> (\<forall>j<length rs. m' \<le> tdiff_of a (rs ! j))
             \<and> (\<forall>j<i. m' < tdiff_of a (rs ! j)))"
proof (induction rs arbitrary: k m idx)
  case Nil
  then show ?case by simp
next
  case (Cons r rs)
  let ?t = "tdiff_of a r"
  show ?case
  proof (cases "?t < m")
    case True
    with Cons.prems have run: "recoil_loop a rs (Suc k) (?t, int k) = (m', idx')"
      by simp
    note IH = Cons.IH [OF run]
    show ?thesis
    proof (cases "\<forall>r'\<in>set rs. ?t \<le> tdiff_of a r'")
      case all: True
      with IH have res: "m' = ?t" "idx' = int k" by simp_all
      have "0 < length (r # rs) \<and> idx' = int (k + 0) \<and> m' = tdiff_of a ((r # rs) ! 0) \<and> m' < m
             \<and> (\<forall>j<length (r # rs). m' \<le> tdiff_of a ((r # rs) ! j))
             \<and> (\<forall>j<0. m' < tdiff_of a ((r # rs) ! j))"
        using res True all by (auto simp: nth_Cons' )
      then have "\<exists>i<length (r # rs). idx' = int (k + i) \<and> m' = tdiff_of a ((r # rs) ! i) \<and> m' < m
             \<and> (\<forall>j<length (r # rs). m' \<le> tdiff_of a ((r # rs) ! j))
             \<and> (\<forall>j<i. m' < tdiff_of a ((r # rs) ! j))"
        by blast
      with True show ?thesis by auto
    next
      case False
      with IH obtain i where i: "i < length rs" "idx' = int (Suc k + i)" "m' = tdiff_of a (rs ! i)"
        "m' < ?t" "\<forall>j<length rs. m' \<le> tdiff_of a (rs ! j)" "\<forall>j<i. m' < tdiff_of a (rs ! j)"
        by auto
      have "Suc i < length (r # rs) \<and> idx' = int (k + Suc i) \<and> m' = tdiff_of a ((r # rs) ! Suc i) \<and> m' < m
             \<and> (\<forall>j<length (r # rs). m' \<le> tdiff_of a ((r # rs) ! j))
             \<and> (\<forall>j<Suc i. m' < tdiff_of a ((r # rs) ! j))"
        using i True by (auto simp: nth_Cons' less_Suc_eq_0_disj)
      then have "\<exists>i<length (r # rs). idx' = int (k + i) \<and> m' = tdiff_of a ((r # rs) ! i) \<and> m' < m
             \<and> (\<forall>j<length (r # rs). m' \<le> tdiff_of a ((r # rs) ! j))
             \<and> (\<forall>j<i. m' < tdiff_of a ((r # rs) ! j))"
        by blast
      with True show ?thesis by auto
    qed
  next
    case ge: False
    with Cons.prems have run: "recoil_loop a rs (Suc k) (m, idx) = (m', idx')"
      by simp
    note IH = Cons.IH [OF run]
    show ?thesis
    proof (cases "\<forall>r'\<in>set rs. m \<le> tdiff_of a r'")
      case True
      with IH ge show ?thesis by auto
    next
      case False
      with IH obtain i where i: "i < length rs" "idx' = int (Suc k + i)" "m' = tdiff_of a (rs ! i)"
        "m' < m" "\<forall>j<length rs. m' \<le> tdiff_of a (rs ! j)" "\<forall>j<i. m' < tdiff_of a (rs ! j)"
        by auto
      have "Suc i < length (r # rs) \<and> idx' = int (k + Suc i) \<and> m' = tdiff_of a ((r # rs) ! Suc i) \<and> m' < m
             \<and> (\<forall>j<length (r # rs). m' \<le> tdiff_of a ((r # rs) ! j))
             \<and> (\<forall>j<Suc i. m' < tdiff_of a ((r # rs) ! j))"
        using i ge by (auto simp: nth_Cons' less_Suc_eq_0_disj)
      then have "\<exists>i<length (r # rs). idx' = int (k + i) \<and> m' = tdiff_of a ((r # rs) ! i) \<and> m' < m
             \<and> (\<forall>j<length (r # rs). m' \<le> tdiff_of a ((r # rs) ! j))
             \<and> (\<forall>j<i. m' < tdiff_of a ((r # rs) ! j))"
        by blast
      with False show ?thesis by auto
    qed
  qed
qed

lemma closest_recoil_none:
  "\<forall>r\<in>set rs. 99999 \<le> tdiff_of a r \<Longrightarrow> closest_recoil a rs = - 1"
  using recoil_loop_spec [of a rs 0 99999 "- 1" "fst (recoil_loop a rs 0 (99999, - 1))" "snd (recoil_loop a rs 0 (99999, - 1))"]
  by (simp add: closest_recoil_def)

lemma closest_recoil_some:
  assumes "\<not> (\<forall>r\<in>set rs. 99999 \<le> tdiff_of a r)"
  shows "\<exists>i<length rs. closest_recoil a rs = int i \<and> tdiff_of a (rs ! i) < 99999
       \<and> (\<forall>j<length rs. tdiff_of a (rs ! i) \<le> tdiff_of a (rs ! j))
       \<and> (\<forall>j<i. tdiff_of a (rs ! i) < tdiff_of a (rs ! j))"
proof -
  obtain m' idx' where run: "recoil_loop a rs 0 (99999, - 1) = (m', idx')"
    by (cases "recoil_loop a rs 0 (99999, - 1)") auto
  from recoil_loop_spec [OF run] assms
  obtain i where "i < length rs" "idx' = int (0 + i)" "m' = tdiff_of a (rs ! i)" "m' < 99999"
      "\<forall>j<length rs. m' \<le> tdiff_of a (rs ! j)" "\<forall>j<i. m' < tdiff_of a (rs ! j)"
    by (auto split: if_splits)
  with run show ?thesis
    by (auto simp: closest_recoil_def)
qed

text \<open>
  C8.  The loop keeps the first recoil event whose signed time difference (recoil
  time minus array time) is the smallest, provided it is below the initial minimum
  99999; with no such event nothing is selected.  Only the selected event is handed to
  \<open>PromptCoincidence\<close> and can fill the recoil-gated histograms.  The selected event
  need not be the closest in absolute time: an event that selects a recoil 50000 ns
  before the array event over one 10 ns after it exists.
\<close>

theorem recoil_selection:
  "(closest_recoil a rs = - 1 \<longleftrightarrow> (\<forall>r\<in>set rs. 99999 \<le> tdiff_of a r))
   \<and> (closest_recoil a rs \<noteq> - 1 \<longrightarrow>
        (\<exists>i<length rs. closest_recoil a rs = int i \<and> tdiff_of a (rs ! i) < 99999
           \<and> (\<forall>j<length rs. tdiff_of a (rs ! i) \<le> tdiff_of a (rs ! j))
           \<and> (\<forall>j<i. tdiff_of a (rs ! i) < tdiff_of a (rs ! j))
           \<and> recoils_tested a rs = [rs ! i]
           \<and> recoil_gated P a rs = (if P (rs ! i) a then [rs ! i] else [])))
   \<and> (closest_recoil a rs = - 1 \<longrightarrow> recoils_tested a rs = [] \<and> recoil_gated P a rs = [])
   \<and> (\<exists>a' rs' i j. closest_recoil a' rs' = int i \<and> i < length rs' \<and> j < length rs'
          \<and> \<bar>tdiff_of a' (rs' ! j)\<bar> < \<bar>tdiff_of a' (rs' ! i)\<bar>)"
proof -
  have none: "closest_recoil a rs = - 1 \<longleftrightarrow> (\<forall>r\<in>set rs. 99999 \<le> tdiff_of a r)"
  proof
    assume c: "closest_recoil a rs = - 1"
    show "\<forall>r\<in>set rs. 99999 \<le> tdiff_of a r"
    proof (rule ccontr)
      assume "\<not> (\<forall>r\<in>set rs. 99999 \<le> tdiff_of a r)"
      from closest_recoil_some [OF this] c show False by auto
    qed
  next
    assume "\<forall>r\<in>set rs. 99999 \<le> tdiff_of a r"
    then show "closest_recoil a rs = - 1" by (rule closest_recoil_none)
  qed
  have some: "closest_recoil a rs \<noteq> - 1 \<longrightarrow>
        (\<exists>i<length rs. closest_recoil a rs = int i \<and> tdiff_of a (rs ! i) < 99999
           \<and> (\<forall>j<length rs. tdiff_of a (rs ! i) \<le> tdiff_of a (rs ! j))
           \<and> (\<forall>j<i. tdiff_of a (rs ! i) < tdiff_of a (rs ! j))
           \<and> recoils_tested a rs = [rs ! i]
           \<and> recoil_gated P a rs = (if P (rs ! i) a then [rs ! i] else []))"
  proof
    assume "closest_recoil a rs \<noteq> - 1"
    with none have "\<not> (\<forall>r\<in>set rs. 99999 \<le> tdiff_of a r)" by simp
    from closest_recoil_some [OF this] obtain i where i: "i < length rs" "closest_recoil a rs = int i"
      "tdiff_of a (rs ! i) < 99999" "\<forall>j<length rs. tdiff_of a (rs ! i) \<le> tdiff_of a (rs ! j)"
      "\<forall>j<i. tdiff_of a (rs ! i) < tdiff_of a (rs ! j)" by blast
    from i(2) have t: "recoils_tested a rs = [rs ! i]"
      by (simp add: recoils_tested_def)
    then have "recoil_gated P a rs = (if P (rs ! i) a then [rs ! i] else [])"
      by (simp add: recoil_gated_def)
    with i t show "\<exists>i<length rs. closest_recoil a rs = int i \<and> tdiff_of a (rs ! i) < 99999
           \<and> (\<forall>j<length rs. tdiff_of a (rs ! i) \<le> tdiff_of a (rs ! j))
           \<and> (\<forall>j<i. tdiff_of a (rs ! i) < tdiff_of a (rs ! j))
           \<and> recoils_tested a rs = [rs ! i]
           \<and> recoil_gated P a rs = (if P (rs ! i) a then [rs ! i] else [])" by blast
  qed
  have empty: "closest_recoil a rs = - 1 \<longrightarrow> recoils_tested a rs = [] \<and> recoil_gated P a rs = []"
    by (simp add: recoils_tested_def recoil_gated_def)
  let ?a = "\<lparr>array_time = 100000, array_module = 0\<rparr>"
  let ?rs = "[\<lparr>recoil_time = 100010, recoil_sector = 0\<rparr>, \<lparr>recoil_time = 50000, recoil_sector = 1\<rparr>]"
  have "closest_recoil ?a ?rs = int 1 \<and> 1 < length ?rs \<and> 0 < length ?rs
      \<and> \<bar>tdiff_of ?a (?rs ! 0)\<bar> < \<bar>tdiff_of ?a (?rs ! 1)\<bar>"
    by (simp add: closest_recoil_def tdiff_of_def)
  then have ex: "\<exists>a' rs' i j. closest_recoil a' rs' = int i \<and> i < length rs' \<and> j < length rs'
          \<and> \<bar>tdiff_of a' (rs' ! j)\<bar> < \<bar>tdiff_of a' (rs' ! i)\<bar>"
    by blast
  from none some empty ex show ?thesis by blast
qed

theorem recoil_selection_witness:
  "closest_recoil \<lparr>array_time = 100000, array_module = 0\<rparr>
     [\<lparr>recoil_time = 100010, recoil_sector = 0\<rparr>, \<lparr>recoil_time = 50000, recoil_sector = 1\<rparr>] = 1
   \<and> recoils_tested \<lparr>array_time = 100000, array_module = 0\<rparr>
     [\<lparr>recoil_time = 100010, recoil_sector = 0\<rparr>, \<lparr>recoil_time = 50000, recoil_sector = 1\<rparr>]
       = [\<lparr>recoil_time = 50000, recoil_sector = 1\<rparr>]
   \<and> closest_recoil \<lparr>array_time = 0, array_module = 0\<rparr>
     [\<lparr>recoil_time = 100000, recoil_sector = 0\<rparr>, \<lparr>recoil_time = 99999, recoil_sector = 1\<rparr>] = - 1
   \<and> recoil_gated always_prompt \<lparr>array_time = 0, array_module = 0\<rparr>
     [\<lparr>recoil_time = 100000, recoil_sector = 0\<rparr>, \<lparr>recoil_time = 99999, recoil_sector = 1\<rparr>] = []"
  using recoil_selection [of "\<lparr>array_time = 100000, array_module = 0\<rparr>"
     "[\<lparr>recoil_time = 100010, recoil_sector = 0\<rparr>, \<lparr>recoil_time = 50000, recoil_sector = 1\<rparr>]" always_prompt]
    recoil_selection [of "\<lparr>array_time = 0, array_module = 0\<rparr>"
     "[\<lparr>recoil_time = 100000, recoil_sector = 0\<rparr>, \<lparr>recoil_time = 99999, recoil_sector = 1\<rparr>]" always_prompt]
  by (simp add: tdiff_of_def closest_recoil_def recoils_tested_def)

lemmas run_defs = BuildEvents_def initial_def iteration_def absorb_def must_close_def close_window_def
  accepted_def rolled_back_def within_bound_def corrected_time_def peek_def sample_config_def
  amp_hit_def info_hit_def Let_def

lemma absorb_closed: "closed_windows (absorb cfg s h) = closed_windows s"
  by (simp add: absorb_def Let_def split: option.splits)

lemma feed_loop_upto_add:
  "feed_loop_upto (k + j) cfg s hs = feed_loop_upto j cfg (feed_loop_upto k cfg s hs) (drop k hs)"
proof (induction k cfg s hs rule: feed_loop_upto.induct)
  case (2 k cfg s)
  then show ?case by (cases j) simp_all
qed simp_all

lemma feed_loop_upto_all: "length hs \<le> k \<Longrightarrow> feed_loop_upto k cfg s hs = feed_loop cfg s hs"
proof (induction k cfg s hs rule: feed_loop_upto.induct)
  case (1 cfg s hs)
  then show ?case by simp
qed simp_all

lemma feed_loop_through:
  "feed_loop cfg s hs = feed_loop cfg (feed_loop_upto k cfg s hs) (drop k hs)"
proof -
  have "feed_loop cfg s hs = feed_loop_upto (k + length (drop k hs)) cfg s hs"
    by (simp add: feed_loop_upto_all)
  also have "\<dots> = feed_loop_upto (length (drop k hs)) cfg (feed_loop_upto k cfg s hs) (drop k hs)"
    by (rule feed_loop_upto_add)
  also have "\<dots> = feed_loop cfg (feed_loop_upto k cfg s hs) (drop k hs)"
    by (simp add: feed_loop_upto_all)
  finally show ?thesis .
qed

lemma close_window_open: "open_window (close_window s) = None"
  by (simp add: close_window_def split: option.splits)

lemma feed_loop_open:
  "open_window (feed_loop cfg s hs) = (if hs = [] then open_window s else None)"
proof (induction hs arbitrary: s)
  case Nil
  then show ?case by simp
next
  case (Cons cur rest)
  show ?case
  proof (cases rest)
    case Nil
    then show ?thesis by (simp add: peek_def iteration_def close_window_open)
  next
    case (Cons n rest')
    with Cons.IH show ?thesis by simp
  qed
qed

lemma lookahead_one:
  "take (Suc k) hs = take (Suc k) hs' \<Longrightarrow>
     feed_loop_upto k cfg s hs = feed_loop_upto k cfg s hs'"
proof (induction k arbitrary: s hs hs')
  case 0
  then show ?case by simp
next
  case (Suc k)
  show ?case
  proof (cases hs)
    case Nil
    with Suc.prems have "hs' = []" by (cases hs') simp_all
    with Nil show ?thesis by simp
  next
    case (Cons cur rest)
    with Suc.prems obtain rest' where hs': "hs' = cur # rest'" and t: "take (Suc k) rest = take (Suc k) rest'"
      by (cases hs') simp_all
    from t have "peek rest = peek rest'"
      by (cases rest; cases rest') (simp_all add: peek_def)
    with Suc.IH [OF t] Cons hs' show ?thesis by simp
  qed
qed

text \<open>
  C2.  \<open>BuildEvents\<close> runs the feed loop over the whole stream, and the loop looks
  exactly one hit ahead.  The run passes through the state after \<open>k\<close> iterations, for
  every \<open>k\<close>, and that state is fixed by the first \<open>k + 1\<close> hits of the stream: the
  \<open>k\<close> hits absorbed and the one hit looked at.  Whether the window of the current hit
  closes in its iteration is decided on that next hit (it closes when the next hit is
  accepted and beyond the bound), so two streams that differ only in the hit after
  the current one can differ in the windows closed so far.  The end of the stream
  closes the open window: no window is open when \<open>BuildEvents\<close> returns.
\<close>

theorem one_hit_lookahead:
  "open_window (BuildEvents cfg tr hs) = None
   \<and> (\<forall>j. BuildEvents cfg tr hs
          = feed_loop cfg (feed_loop_upto j cfg (initial tr) hs) (drop j hs))
   \<and> BuildEvents cfg tr hs = feed_loop_upto (length hs) cfg (initial tr) hs
   \<and> (\<forall>hs'. take (Suc k) hs = take (Suc k) hs' \<longrightarrow>
         feed_loop_upto k cfg s hs = feed_loop_upto k cfg s hs')
   \<and> closed_windows (iteration cfg s cur None)
       = closed_windows s @ (case open_window (absorb cfg s cur) of None \<Rightarrow> [] | Some w \<Rightarrow> [w])
   \<and> (\<forall>n. closed_windows (iteration cfg s cur (Some n))
       = closed_windows s @
           (case open_window (absorb cfg s cur) of
              None \<Rightarrow> []
            | Some w \<Rightarrow>
                if accepted cfg (absorb cfg s cur) n
                   \<and> \<not> within_bound cfg w (corrected_time cfg (absorb cfg s cur) n)
                then [w] else []))
   \<and> (\<exists>h a b. closed_windows (feed_loop_upto 1 sample_config (initial 0) [h, a])
           \<noteq> closed_windows (feed_loop_upto 1 sample_config (initial 0) [h, b]))"
proof -
  have a: "open_window (BuildEvents cfg tr hs) = None"
    by (simp add: BuildEvents_def feed_loop_open initial_def)
  have t1: "\<forall>j. BuildEvents cfg tr hs
          = feed_loop cfg (feed_loop_upto j cfg (initial tr) hs) (drop j hs)"
    unfolding BuildEvents_def using feed_loop_through by blast
  have t2: "BuildEvents cfg tr hs = feed_loop_upto (length hs) cfg (initial tr) hs"
    by (simp add: BuildEvents_def feed_loop_upto_all)
  have b: "\<forall>hs'. take (Suc k) hs = take (Suc k) hs' \<longrightarrow>
         feed_loop_upto k cfg s hs = feed_loop_upto k cfg s hs'"
    using lookahead_one by blast
  have c: "closed_windows (iteration cfg s cur None)
       = closed_windows s @ (case open_window (absorb cfg s cur) of None \<Rightarrow> [] | Some w \<Rightarrow> [w])"
    by (simp add: iteration_def close_window_def absorb_closed Let_def split: option.splits)
  have d: "\<forall>n. closed_windows (iteration cfg s cur (Some n))
       = closed_windows s @
           (case open_window (absorb cfg s cur) of
              None \<Rightarrow> []
            | Some w \<Rightarrow>
                if accepted cfg (absorb cfg s cur) n
                   \<and> \<not> within_bound cfg w (corrected_time cfg (absorb cfg s cur) n)
                then [w] else [])"
    by (simp add: iteration_def close_window_def must_close_def absorb_closed Let_def
        split: option.splits)
  have "closed_windows (feed_loop_upto 1 sample_config (initial 0)
            [amp_hit ASIC 0 3 500 100, amp_hit ASIC 0 3 500 120])
      \<noteq> closed_windows (feed_loop_upto 1 sample_config (initial 0)
            [amp_hit ASIC 0 3 500 100, amp_hit ASIC 0 3 500 200])"
    by (simp add: run_defs)
  then have e: "\<exists>h a b. closed_windows (feed_loop_upto 1 sample_config (initial 0) [h, a])
           \<noteq> closed_windows (feed_loop_upto 1 sample_config (initial 0) [h, b])"
    by blast
  from a t1 t2 b c d e show ?thesis by blast
qed

theorem one_hit_lookahead_witness:
  "feed_loop_upto 1 sample_config (initial 0)
       [amp_hit ASIC 0 3 500 100, amp_hit ASIC 0 3 500 200, amp_hit ASIC 0 3 500 300]
     = feed_loop_upto 1 sample_config (initial 0)
       [amp_hit ASIC 0 3 500 100, amp_hit ASIC 0 3 500 200, info_hit 20 7000, info_hit 20 8000]
   \<and> closed_windows (feed_loop_upto 1 sample_config (initial 0)
       [amp_hit ASIC 0 3 500 100, amp_hit ASIC 0 3 500 200, amp_hit ASIC 0 3 500 300])
     = [\<lparr> window_start = 100, window_hits = [(100, amp_hit ASIC 0 3 500 100)] \<rparr>]
   \<and> open_window (BuildEvents sample_config 0
       [amp_hit ASIC 0 3 500 100, amp_hit ASIC 0 3 500 120]) = None
   \<and> closed_windows (BuildEvents sample_config 0
       [amp_hit ASIC 0 3 500 100, amp_hit ASIC 0 3 500 120])
     = [\<lparr> window_start = 100, window_hits = [(100, amp_hit ASIC 0 3 500 100), (120, amp_hit ASIC 0 3 500 120)] \<rparr>]
   \<and> closed_windows (BuildEvents sample_config 0
       [amp_hit ASIC 0 3 500 100, amp_hit ASIC 0 3 500 200])
     = [\<lparr> window_start = 100, window_hits = [(100, amp_hit ASIC 0 3 500 100)] \<rparr>,
        \<lparr> window_start = 200, window_hits = [(200, amp_hit ASIC 0 3 500 200)] \<rparr>]
   \<and> BuildEvents sample_config 0 [amp_hit ASIC 0 3 500 100, amp_hit ASIC 0 3 500 200]
     = feed_loop sample_config
         (feed_loop_upto 1 sample_config (initial 0) [amp_hit ASIC 0 3 500 100, amp_hit ASIC 0 3 500 200])
         [amp_hit ASIC 0 3 500 200]"
proof -
  have t: "take (Suc 1) [amp_hit ASIC 0 3 500 100, amp_hit ASIC 0 3 500 200, amp_hit ASIC 0 3 500 300]
      = take (Suc 1) [amp_hit ASIC 0 3 500 100, amp_hit ASIC 0 3 500 200, info_hit 20 7000, info_hit 20 8000]"
    by simp
  from one_hit_lookahead [of sample_config 0
      "[amp_hit ASIC 0 3 500 100, amp_hit ASIC 0 3 500 200, amp_hit ASIC 0 3 500 300]" 1 "initial 0"] t
  have "feed_loop_upto 1 sample_config (initial 0)
       [amp_hit ASIC 0 3 500 100, amp_hit ASIC 0 3 500 200, amp_hit ASIC 0 3 500 300]
     = feed_loop_upto 1 sample_config (initial 0)
       [amp_hit ASIC 0 3 500 100, amp_hit ASIC 0 3 500 200, info_hit 20 7000, info_hit 20 8000]"
    by blast
  moreover have "closed_windows (feed_loop_upto 1 sample_config (initial 0)
       [amp_hit ASIC 0 3 500 100, amp_hit ASIC 0 3 500 200, amp_hit ASIC 0 3 500 300])
     = [\<lparr> window_start = 100, window_hits = [(100, amp_hit ASIC 0 3 500 100)] \<rparr>]"
    by (simp add: run_defs)
  moreover from one_hit_lookahead [of sample_config 0
      "[amp_hit ASIC 0 3 500 100, amp_hit ASIC 0 3 500 120]"]
  have "open_window (BuildEvents sample_config 0
       [amp_hit ASIC 0 3 500 100, amp_hit ASIC 0 3 500 120]) = None"
    by blast
  moreover have "closed_windows (BuildEvents sample_config 0
       [amp_hit ASIC 0 3 500 100, amp_hit ASIC 0 3 500 120])
     = [\<lparr> window_start = 100, window_hits = [(100, amp_hit ASIC 0 3 500 100), (120, amp_hit ASIC 0 3 500 120)] \<rparr>]"
    by (simp add: run_defs)
  moreover have "closed_windows (BuildEvents sample_config 0
       [amp_hit ASIC 0 3 500 100, amp_hit ASIC 0 3 500 200])
     = [\<lparr> window_start = 100, window_hits = [(100, amp_hit ASIC 0 3 500 100)] \<rparr>,
        \<lparr> window_start = 200, window_hits = [(200, amp_hit ASIC 0 3 500 200)] \<rparr>]"
    by (simp add: run_defs)
  moreover from one_hit_lookahead [of sample_config 0
      "[amp_hit ASIC 0 3 500 100, amp_hit ASIC 0 3 500 200]"]
  have "BuildEvents sample_config 0 [amp_hit ASIC 0 3 500 100, amp_hit ASIC 0 3 500 200]
     = feed_loop sample_config
         (feed_loop_upto 1 sample_config (initial 0) [amp_hit ASIC 0 3 500 100, amp_hit ASIC 0 3 500 200])
         (drop 1 [amp_hit ASIC 0 3 500 100, amp_hit ASIC 0 3 500 200])"
    by blast
  ultimately show ?thesis by simp
qed

lemma absorb_info: "det_class h = INFO \<Longrightarrow> absorb cfg s h = s\<lparr> tracker := TrackerUpdate cfg (tracker s) h \<rparr>"
  by (simp add: absorb_def)

lemma info_never_closes: "det_class n = INFO \<Longrightarrow> \<not> must_close cfg s n"
  by (simp add: must_close_def accepted_def split: option.splits)

lemma opens_only_amplitude:
  "open_window s = None \<Longrightarrow> open_window (absorb cfg s h) = Some w \<Longrightarrow>
    (det_class h = ASIC \<or> det_class h = CAEN) \<and> above_threshold h
    \<and> w = \<lparr> window_start = corrected_time cfg s h, window_hits = [(corrected_time cfg s h, h)] \<rparr>"
  by (cases "det_class h") (auto simp: absorb_def Let_def split: if_splits)

lemma absorb_amplitude: "amplitude_inv s \<Longrightarrow> amplitude_inv (absorb cfg s h)"
  by (auto simp: amplitude_inv_def absorb_def Let_def amplitude_window_def split: option.splits)

lemma close_amplitude: "amplitude_inv s \<Longrightarrow> amplitude_inv (close_window s)"
  by (auto simp: amplitude_inv_def close_window_def split: option.splits)

lemma iteration_amplitude: "amplitude_inv s \<Longrightarrow> amplitude_inv (iteration cfg s cur nxt)"
  by (simp add: iteration_def Let_def absorb_amplitude close_amplitude split: option.splits)

lemma feed_loop_amplitude: "amplitude_inv s \<Longrightarrow> amplitude_inv (feed_loop cfg s hs)"
  by (induction hs arbitrary: s) (simp_all add: iteration_amplitude)

lemma info_only_iteration:
  "det_class cur = INFO \<Longrightarrow> open_window s = None \<Longrightarrow>
     open_window (iteration cfg s cur nxt) = None \<and> closed_windows (iteration cfg s cur nxt) = closed_windows s"
  by (auto simp: iteration_def absorb_info must_close_def close_window_def Let_def split: option.splits)

lemma info_only_run:
  "\<forall>h\<in>set hs. det_class h = INFO \<Longrightarrow> open_window s = None \<Longrightarrow>
     closed_windows (feed_loop cfg s hs) = closed_windows s"
proof (induction hs arbitrary: s)
  case Nil then show ?case by simp
next
  case (Cons cur rest)
  from Cons.prems info_only_iteration [of cur s cfg "peek rest"]
  have "open_window (iteration cfg s cur (peek rest)) = None"
    "closed_windows (iteration cfg s cur (peek rest)) = closed_windows s" by simp_all
  with Cons show ?case by simp
qed

lemma iteration_decide: "iteration cfg s cur nxt = decide cfg (absorb cfg s cur) nxt"
  by (simp add: iteration_def decide_def Let_def)

lemma decide_info: "det_class n = INFO \<Longrightarrow> decide cfg s (Some n) = s"
  by (simp add: decide_def info_never_closes)

lemma close_window_idem: "close_window (close_window s) = close_window s"
  by (simp add: close_window_def split: option.splits)

lemma must_close_closed: "\<not> must_close cfg (close_window s) n"
  by (simp add: must_close_def close_window_open)

lemma decide_idem: "decide cfg (decide cfg s x) x = decide cfg s x"
  by (cases x) (simp_all add: decide_def close_window_idem must_close_closed)

lemma decide_no_window: "open_window s = None \<Longrightarrow> decide cfg s x = s"
  by (cases x) (simp_all add: decide_def close_window_def must_close_def)

lemma windows_of_close:
  "windows_of s = windows_of s' \<Longrightarrow> windows_of (close_window s) = windows_of (close_window s')"
  by (auto simp: windows_of_def close_window_def split: option.splits)

lemma corrected_time_fixed:
  "clock_fixed cfg \<Longrightarrow> corrected_time cfg s h = corrected_time cfg s' h"
  unfolding corrected_time_def clock_fixed_def by blast

lemma rolled_back_fixed:
  assumes "clock_fixed cfg" "windows_of s = windows_of s'"
  shows "rolled_back cfg s h = rolled_back cfg s' h"
proof -
  have "time_prev s = time_prev s'" using assms(2) by (simp add: windows_of_def)
  then show ?thesis
    by (simp add: rolled_back_def corrected_time_fixed [OF assms(1), of s h s'] split: option.splits)
qed

lemma accepted_fixed:
  "clock_fixed cfg \<Longrightarrow> windows_of s = windows_of s' \<Longrightarrow> accepted cfg s h = accepted cfg s' h"
  by (simp add: accepted_def rolled_back_fixed [of cfg s s' h])

lemma must_close_fixed:
  "clock_fixed cfg \<Longrightarrow> windows_of s = windows_of s' \<Longrightarrow> must_close cfg s n = must_close cfg s' n"
proof -
  assume a: "clock_fixed cfg" "windows_of s = windows_of s'"
  then have "open_window s = open_window s'" by (simp add: windows_of_def)
  then show ?thesis
    by (simp add: must_close_def corrected_time_fixed [OF a(1), of s n s']
        accepted_fixed [OF a, of n] split: option.splits)
qed

lemma windows_of_decide:
  "clock_fixed cfg \<Longrightarrow> windows_of s = windows_of s' \<Longrightarrow>
     windows_of (decide cfg s x) = windows_of (decide cfg s' x)"
proof -
  assume a: "clock_fixed cfg" "windows_of s = windows_of s'"
  note c = windows_of_close [OF a(2)]
  show ?thesis
  proof (cases x)
    case None
    with c show ?thesis by (simp add: decide_def)
  next
    case (Some n)
    from must_close_fixed [OF a, of n] c a(2) Some show ?thesis
      by (simp add: decide_def)
  qed
qed

lemma windows_of_absorb_info: "det_class h = INFO \<Longrightarrow> windows_of (absorb cfg s h) = windows_of s"
  by (simp add: absorb_info windows_of_def)

lemma windows_of_absorb:
  assumes "clock_fixed cfg" "windows_of s = windows_of s'"
  shows "windows_of (absorb cfg s h) = windows_of (absorb cfg s' h)"
proof -
  have p: "Paused cfg (tracker s) (module_id h) = Paused cfg (tracker s') (module_id h)"
    using assms(1) unfolding clock_fixed_def by blast
  have r: "rolled_back cfg s h = rolled_back cfg s' h"
    using assms by (rule rolled_back_fixed)
  have c: "corrected_time cfg s h = corrected_time cfg s' h"
    using assms(1) by (rule corrected_time_fixed)
  from assms(2) have w: "open_window s = open_window s'" "closed_windows s = closed_windows s'"
    "time_prev s = time_prev s'" "n_rollback s = n_rollback s'"
    by (simp_all add: windows_of_def)
  show ?thesis
    by (simp add: absorb_def windows_of_def Let_def p r c w split: option.splits)
qed

lemma peek_amplitude_hits:
  "peek (amplitude_hits (n # rest))
     = (if det_class n = INFO then peek (amplitude_hits rest) else Some n)"
  by (simp add: amplitude_hits_def peek_def)

lemma decide_twice:
  assumes "clock_fixed cfg" "windows_of a = windows_of b"
  shows "windows_of (decide cfg (decide cfg a (peek rest)) (peek (amplitude_hits rest)))
       = windows_of (decide cfg b (peek (amplitude_hits rest)))"
proof (cases rest)
  case Nil
  then show ?thesis
    using windows_of_decide [OF assms, of None]
    by (simp add: peek_def amplitude_hits_def decide_idem)
next
  case (Cons n r)
  show ?thesis
  proof (cases "det_class n = INFO")
    case True
    then have "peek (amplitude_hits rest) = peek (amplitude_hits r)"
      using Cons by (simp add: peek_amplitude_hits)
    moreover have "peek rest = Some n"
      using Cons by (simp add: peek_def)
    ultimately have "peek (amplitude_hits rest) = peek (amplitude_hits r)" "peek rest = Some n"
      by simp_all
    then show ?thesis
      using windows_of_decide [OF assms] True
      by (simp add: decide_info)
  next
    case False
    then have "peek (amplitude_hits rest) = Some n"
      using Cons by (simp add: peek_amplitude_hits)
    moreover have "peek rest = Some n"
      using Cons by (simp add: peek_def)
    ultimately have "peek (amplitude_hits rest) = Some n" "peek rest = Some n"
      by simp_all
    then show ?thesis
      using windows_of_decide [OF assms, of "Some n"]
      by (simp add: decide_idem)
  qed
qed

lemma info_transparent:
  assumes cf: "clock_fixed cfg"
  shows "decide cfg s (peek hs) = s \<Longrightarrow>
     windows_of s' = windows_of (decide cfg s (peek (amplitude_hits hs))) \<Longrightarrow>
     windows_of (close_window (feed_loop cfg s' (amplitude_hits hs)))
       = windows_of (close_window (feed_loop cfg s hs))"
proof (induction hs arbitrary: s s')
  case Nil
  then have "windows_of s' = windows_of (close_window s)"
    by (simp add: amplitude_hits_def peek_def decide_def)
  from windows_of_close [OF this] show ?case
    by (simp add: amplitude_hits_def close_window_idem)
next
  case (Cons cur rest)
  let ?s2 = "iteration cfg s cur (peek rest)"
  have d2: "decide cfg ?s2 (peek rest) = ?s2"
    by (simp add: iteration_decide decide_idem)
  show ?case
  proof (cases "det_class cur = INFO")
    case True
    then have am: "amplitude_hits (cur # rest) = amplitude_hits rest"
      by (simp add: amplitude_hits_def)
    have "windows_of (absorb cfg s cur) = windows_of s"
      using True by (rule windows_of_absorb_info)
    from decide_twice [OF cf this, of rest] Cons.prems(2) am
    have "windows_of s' = windows_of (decide cfg ?s2 (peek (amplitude_hits rest)))"
      by (simp add: iteration_decide)
    from Cons.IH [OF d2 this] am show ?thesis by simp
  next
    case False
    then have am: "amplitude_hits (cur # rest) = cur # amplitude_hits rest"
      by (simp add: amplitude_hits_def)
    from Cons.prems have "windows_of s' = windows_of s"
      by (simp add: am peek_def)
    then have "windows_of (absorb cfg s cur) = windows_of (absorb cfg s' cur)"
      using windows_of_absorb [OF cf, of s' s cur] by simp
    from decide_twice [OF cf this, of rest]
    have "windows_of (iteration cfg s' cur (peek (amplitude_hits rest)))
        = windows_of (decide cfg ?s2 (peek (amplitude_hits rest)))"
      by (simp add: iteration_decide)
    from Cons.IH [OF d2 this] am show ?thesis by simp
  qed
qed

lemma info_transparent_run:
  assumes "clock_fixed cfg"
  shows "closed_windows (BuildEvents cfg tr hs) = closed_windows (BuildEvents cfg tr (amplitude_hits hs))"
proof -
  have o: "open_window (initial tr) = None" by (simp add: initial_def)
  have "windows_of (close_window (feed_loop cfg (initial tr) (amplitude_hits hs)))
       = windows_of (close_window (feed_loop cfg (initial tr) hs))"
    by (rule info_transparent [OF assms]) (simp_all add: decide_no_window [OF o])
  moreover have "open_window (feed_loop cfg (initial tr) hs) = None"
    "open_window (feed_loop cfg (initial tr) (amplitude_hits hs)) = None"
    by (simp_all add: feed_loop_open o)
  ultimately show ?thesis
    by (simp add: BuildEvents_def windows_of_def close_window_def)
qed

text \<open>
  C5.  An INFO hit only updates the tracker: absorbing it leaves the open window, the
  closed windows and the counters as they are, so it opens no window; and when it is
  the next hit of the stream, the iteration of the current hit closes nothing.  A
  window is opened only by an ASIC or CAEN hit above threshold, at that hit's
  corrected time.  A stream of INFO hits alone yields no window, and no window of any
  run holds an INFO hit or a hit below threshold.  The INFO hits act on the windows
  through the tracker alone: where the clock correction and the pause flags do not
  depend on the tracker's state, \<open>BuildEvents\<close> closes the same windows on a stream
  and on that stream without its INFO hits.
\<close>

theorem info_hits_update_only:
  "(det_class h = INFO \<longrightarrow>
       absorb cfg s h = s\<lparr> tracker := TrackerUpdate cfg (tracker s) h \<rparr> \<and> \<not> must_close cfg s h
       \<and> iteration cfg s cur (Some h) = absorb cfg s cur)
   \<and> (\<forall>w. open_window s = None \<and> open_window (absorb cfg s h) = Some w \<longrightarrow>
         (det_class h = ASIC \<or> det_class h = CAEN) \<and> above_threshold h
         \<and> window_start w = corrected_time cfg s h)
   \<and> ((\<forall>x\<in>set hs. det_class x = INFO) \<longrightarrow> closed_windows (BuildEvents cfg tr hs) = [])
   \<and> (\<forall>w\<in>set (closed_windows (BuildEvents cfg tr hs)). \<forall>(t, x)\<in>set (window_hits w).
         det_class x \<noteq> INFO \<and> above_threshold x)
   \<and> ((\<forall>tr1 tr2 m t. CorrectTime cfg tr1 m t = CorrectTime cfg tr2 m t)
        \<and> (\<forall>tr1 tr2 m. Paused cfg tr1 m = Paused cfg tr2 m) \<longrightarrow>
       closed_windows (BuildEvents cfg tr hs)
         = closed_windows (BuildEvents cfg tr (amplitude_hits hs)))"
proof -
  have a: "det_class h = INFO \<longrightarrow>
       absorb cfg s h = s\<lparr> tracker := TrackerUpdate cfg (tracker s) h \<rparr> \<and> \<not> must_close cfg s h
       \<and> iteration cfg s cur (Some h) = absorb cfg s cur"
    using absorb_info [of h cfg s] info_never_closes [of h cfg s]
      decide_info [of h cfg "absorb cfg s cur"]
    by (simp add: iteration_decide)
  have b: "\<forall>w. open_window s = None \<and> open_window (absorb cfg s h) = Some w \<longrightarrow>
         (det_class h = ASIC \<or> det_class h = CAEN) \<and> above_threshold h
         \<and> window_start w = corrected_time cfg s h"
    using opens_only_amplitude [of s cfg h] by auto
  have c: "(\<forall>x\<in>set hs. det_class x = INFO) \<longrightarrow> closed_windows (BuildEvents cfg tr hs) = []"
    using info_only_run [of hs "initial tr" cfg] by (simp add: BuildEvents_def initial_def)
  have "amplitude_inv (initial tr)"
    by (simp add: amplitude_inv_def initial_def)
  then have "amplitude_inv (BuildEvents cfg tr hs)"
    unfolding BuildEvents_def by (rule feed_loop_amplitude)
  then have d: "\<forall>w\<in>set (closed_windows (BuildEvents cfg tr hs)). \<forall>(t, x)\<in>set (window_hits w).
         det_class x \<noteq> INFO \<and> above_threshold x"
    by (simp add: amplitude_inv_def amplitude_window_def list_all_iff)
  have e: "(\<forall>tr1 tr2 m t. CorrectTime cfg tr1 m t = CorrectTime cfg tr2 m t)
        \<and> (\<forall>tr1 tr2 m. Paused cfg tr1 m = Paused cfg tr2 m) \<longrightarrow>
       closed_windows (BuildEvents cfg tr hs)
         = closed_windows (BuildEvents cfg tr (amplitude_hits hs))"
    using info_transparent_run [of cfg tr hs] unfolding clock_fixed_def by blast
  from a b c d e show ?thesis by blast
qed

theorem info_hits_update_only_witness:
  "closed_windows (BuildEvents sample_config 0
      [amp_hit ASIC 0 3 500 100, info_hit 20 110, amp_hit ASIC 0 70 480 120, info_hit 21 125,
       amp_hit CAEN 5 2 900 300])
     = [\<lparr> window_start = 100,
          window_hits = [(100, amp_hit ASIC 0 3 500 100), (120, amp_hit ASIC 0 70 480 120)] \<rparr>,
        \<lparr> window_start = 300, window_hits = [(300, amp_hit CAEN 5 2 900 300)] \<rparr>]
   \<and> closed_windows (BuildEvents sample_config 0
      [amp_hit ASIC 0 3 500 100, amp_hit ASIC 0 70 480 120, amp_hit CAEN 5 2 900 300])
     = [\<lparr> window_start = 100,
          window_hits = [(100, amp_hit ASIC 0 3 500 100), (120, amp_hit ASIC 0 70 480 120)] \<rparr>,
        \<lparr> window_start = 300, window_hits = [(300, amp_hit CAEN 5 2 900 300)] \<rparr>]
   \<and> tracker (BuildEvents sample_config 0
      [amp_hit ASIC 0 3 500 100, info_hit 20 110, amp_hit ASIC 0 70 480 120, info_hit 21 125,
       amp_hit CAEN 5 2 900 300]) = 2
   \<and> iteration sample_config (initial 0) (amp_hit ASIC 0 3 500 100) (Some (info_hit 20 9000))
     = absorb sample_config (initial 0) (amp_hit ASIC 0 3 500 100)
   \<and> open_window (iteration sample_config (initial 0) (amp_hit ASIC 0 3 500 100) (Some (info_hit 20 9000)))
     = Some \<lparr> window_start = 100, window_hits = [(100, amp_hit ASIC 0 3 500 100)] \<rparr>
   \<and> closed_windows (BuildEvents sample_config 0 [info_hit 20 120, info_hit 21 9000]) = []
   \<and> absorb sample_config (initial 0) (info_hit 20 120) = (initial 0)\<lparr> tracker := 1 \<rparr>"
proof -
  let ?hs = "[amp_hit ASIC 0 3 500 100, info_hit 20 110, amp_hit ASIC 0 70 480 120, info_hit 21 125,
       amp_hit CAEN 5 2 900 300]"
  have i: "det_class (info_hit 20 120) = INFO" "det_class (info_hit 20 9000) = INFO"
    "\<forall>x\<in>set [info_hit 20 120, info_hit 21 9000]. det_class x = INFO"
    by (simp_all add: info_hit_def)
  have fixed: "(\<forall>tr1 tr2 m t. CorrectTime sample_config tr1 m t = CorrectTime sample_config tr2 m t)
        \<and> (\<forall>tr1 tr2 m. Paused sample_config tr1 m = Paused sample_config tr2 m)"
    by (simp add: sample_config_def)
  have am: "amplitude_hits ?hs
      = [amp_hit ASIC 0 3 500 100, amp_hit ASIC 0 70 480 120, amp_hit CAEN 5 2 900 300]"
    by (simp add: amplitude_hits_def amp_hit_def info_hit_def)
  have run: "closed_windows (BuildEvents sample_config 0
      [amp_hit ASIC 0 3 500 100, amp_hit ASIC 0 70 480 120, amp_hit CAEN 5 2 900 300])
     = [\<lparr> window_start = 100,
          window_hits = [(100, amp_hit ASIC 0 3 500 100), (120, amp_hit ASIC 0 70 480 120)] \<rparr>,
        \<lparr> window_start = 300, window_hits = [(300, amp_hit CAEN 5 2 900 300)] \<rparr>]"
    by (simp add: run_defs)
  from info_hits_update_only [of "info_hit 20 120" sample_config "initial 0"
      "amp_hit ASIC 0 3 500 100" ?hs 0] fixed
  have "closed_windows (BuildEvents sample_config 0 ?hs)
      = closed_windows (BuildEvents sample_config 0 (amplitude_hits ?hs))"
    by blast
  with am run have w: "closed_windows (BuildEvents sample_config 0 ?hs)
     = [\<lparr> window_start = 100,
          window_hits = [(100, amp_hit ASIC 0 3 500 100), (120, amp_hit ASIC 0 70 480 120)] \<rparr>,
        \<lparr> window_start = 300, window_hits = [(300, amp_hit CAEN 5 2 900 300)] \<rparr>]"
    by simp
  from info_hits_update_only [of "info_hit 20 120" sample_config "initial 0"
      "amp_hit ASIC 0 3 500 100" "[info_hit 20 120, info_hit 21 9000]" 0] i
  have e: "closed_windows (BuildEvents sample_config 0 [info_hit 20 120, info_hit 21 9000]) = []"
    "absorb sample_config (initial 0) (info_hit 20 120)
       = (initial 0)\<lparr> tracker := TrackerUpdate sample_config (tracker (initial 0)) (info_hit 20 120) \<rparr>"
    by blast+
  from info_hits_update_only [of "info_hit 20 9000" sample_config "initial 0"
      "amp_hit ASIC 0 3 500 100"] i
  have it: "iteration sample_config (initial 0) (amp_hit ASIC 0 3 500 100) (Some (info_hit 20 9000))
     = absorb sample_config (initial 0) (amp_hit ASIC 0 3 500 100)"
    by blast
  have op: "open_window (absorb sample_config (initial 0) (amp_hit ASIC 0 3 500 100))
     = Some \<lparr> window_start = 100, window_hits = [(100, amp_hit ASIC 0 3 500 100)] \<rparr>"
    by (simp add: run_defs)
  have tr: "tracker (BuildEvents sample_config 0 ?hs) = 2"
    by (simp add: run_defs)
  from w run tr it op e show ?thesis
    by (simp add: sample_config_def initial_def)
qed

end
